theory Spec2Isabelle
  imports Main "HOL-Library.AList"
begin

section \<open>Raw data, load errors and struct trails\<close>

text \<open>
  The extraction generator of \<^verbatim>\<open>input_extraction_gen.py\<close> emits Python source text. The
  text is modelled as an abstract syntax tree of exactly the statement forms the generator's
  templates contain, and an interpreter gives those forms the meaning Python gives them on
  JSON-like data. A crown path element is a \<^verbatim>\<open>str\<close> key or an \<^verbatim>\<open>int\<close> index
  (\<^verbatim>\<open>CrownPathElem\<close>).
\<close>

datatype key = KStr string | KInt int

type_synonym crown_path = "key list"

text \<open>Raw input values: \<^verbatim>\<open>None\<close>, integers, strings, lists, and mappings keyed by path elements.\<close>

datatype pyval =
    PNone
  | PInt int
  | PStr string
  | PList "pyval list"
  | PDict "(key \<times> pyval) list"

fun key_val :: "key \<Rightarrow> pyval" where
  "key_val (KStr s) = PStr s"
| "key_val (KInt i) = PInt i"

datatype pytype = PyDict | PyList

text \<open>
  Exceptions. The first four are raised by Python itself (subscripting, unbound names), the next
  five are the load errors the generator names, \<open>LoaderFailure\<close> is an opaque error of a field
  loader, the last two are the exception groups of debug trail \<^verbatim>\<open>ALL\<close>. Every exception carries its
  struct trail.
\<close>

datatype exc = Exc (kind: exc_kind) (trail: crown_path)
and exc_kind =
    PyKeyError
  | PyIndexError
  | PyTypeError
  | PyNameError
  | NoRequiredFieldsError "key list"
  | NoRequiredItemsError nat
  | TypeLoadError pytype
  | ExtraFieldsError "pyval set"
  | ExtraItemsError nat
  | LoaderFailure string
  | LoadExceptionGroup "exc list"
  | CompatExceptionGroup "exc list"

text \<open>
  Modelled from the spec: \<^verbatim>\<open>append_trail\<close>, \<^verbatim>\<open>extend_trail\<close> and \<^verbatim>\<open>render_trail_as_note\<close> of
  \<^verbatim>\<open>struct_trail\<close>, which is not among the sources. Decoration attaches a path to an error, is
  purely additive and never alters the error kind; the outer position comes first.
\<close>

definition append_trail :: "exc \<Rightarrow> key \<Rightarrow> exc" where
  "append_trail e k = Exc (kind e) (k # trail e)"

definition extend_trail :: "exc \<Rightarrow> crown_path \<Rightarrow> exc" where
  "extend_trail e p = Exc (kind e) (p @ trail e)"

definition render_trail_as_note :: "exc \<Rightarrow> exc" where
  "render_trail_as_note e = e"

datatype exc_class = CKeyError | CIndexError | CTypeError | CException

fun exc_matches :: "exc \<Rightarrow> exc_class \<Rightarrow> bool" where
  "exc_matches e CException = True"
| "exc_matches e CKeyError = (kind e = PyKeyError)"
| "exc_matches e CIndexError = (kind e = PyIndexError)"
| "exc_matches e CTypeError = (kind e = PyTypeError)"

section \<open>Python operations used by the emitted code\<close>

text \<open>
  The position an index denotes in a sequence of \<open>n\<close> items: negative indices count from the
  end, and there is none out of range.
\<close>

definition py_index :: "nat \<Rightarrow> int \<Rightarrow> nat option" where
  "py_index n i =
     (if int n \<le> i \<or> i < - int n then None
      else if i < 0 then Some (nat (int n + i))
      else Some (nat i))"

text \<open>\<^verbatim>\<open>container[key]\<close> for a literal key: a path element.\<close>

fun py_getitem :: "pyval \<Rightarrow> key \<Rightarrow> exc_kind + pyval" where
  "py_getitem (PDict kvs) k =
     (case map_of kvs k of Some v \<Rightarrow> Inr v | None \<Rightarrow> Inl PyKeyError)"
| "py_getitem (PList xs) (KInt i) =
     (case py_index (length xs) i of Some j \<Rightarrow> Inr (xs ! j) | None \<Rightarrow> Inl PyIndexError)"
| "py_getitem (PList xs) (KStr s) = Inl PyTypeError"
| "py_getitem (PStr cs) (KInt i) =
     (case py_index (length cs) i of Some j \<Rightarrow> Inr (PStr [cs ! j]) | None \<Rightarrow> Inl PyIndexError)"
| "py_getitem (PStr cs) (KStr s) = Inl PyTypeError"
| "py_getitem PNone k = Inl PyTypeError"
| "py_getitem (PInt v) k = Inl PyTypeError"

text \<open>\<^verbatim>\<open>container[key] = value\<close>.\<close>

fun py_setitem :: "pyval \<Rightarrow> key \<Rightarrow> pyval \<Rightarrow> exc_kind + pyval" where
  "py_setitem (PDict kvs) k v = Inr (PDict (AList.update k v kvs))"
| "py_setitem (PList xs) (KInt i) v =
     (case py_index (length xs) i of
        Some j \<Rightarrow> Inr (PList (xs[j := v]))
      | None \<Rightarrow> Inl PyIndexError)"
| "py_setitem (PList xs) (KStr s) v = Inl PyTypeError"
| "py_setitem (PStr cs) k v = Inl PyTypeError"
| "py_setitem PNone k v = Inl PyTypeError"
| "py_setitem (PInt a) k v = Inl PyTypeError"

fun py_len :: "pyval \<Rightarrow> exc_kind + nat" where
  "py_len (PDict kvs) = Inr (length (remdups (map fst kvs)))"
| "py_len (PList xs) = Inr (length xs)"
| "py_len (PStr cs) = Inr (length cs)"
| "py_len PNone = Inl PyTypeError"
| "py_len (PInt v) = Inl PyTypeError"

fun hashable :: "pyval \<Rightarrow> bool" where
  "hashable (PList xs) = False"
| "hashable (PDict kvs) = False"
| "hashable v = True"

text \<open>\<^verbatim>\<open>set(data)\<close>: the keys of a mapping, the items of a list, the characters of a string.\<close>

fun py_set :: "pyval \<Rightarrow> exc_kind + pyval set" where
  "py_set (PDict kvs) = Inr (key_val ` set (map fst kvs))"
| "py_set (PList xs) = (if list_all hashable xs then Inr (set xs) else Inl PyTypeError)"
| "py_set (PStr cs) = Inr ((\<lambda>c. PStr [c]) ` set cs)"
| "py_set PNone = Inl PyTypeError"
| "py_set (PInt v) = Inl PyTypeError"

fun is_mapping :: "pyval \<Rightarrow> bool" where
  "is_mapping (PDict kvs) = True"
| "is_mapping v = False"

text \<open>\<^verbatim>\<open>collections.abc.Sequence\<close> has lists and strings as instances.\<close>

fun is_sequence :: "pyval \<Rightarrow> bool" where
  "is_sequence (PList xs) = True"
| "is_sequence (PStr cs) = True"
| "is_sequence v = False"

fun is_str :: "pyval \<Rightarrow> bool" where
  "is_str (PStr cs) = True"
| "is_str v = False"

section \<open>The emitted code\<close>

text \<open>
  Variable names. \<^verbatim>\<open>VarBinder\<close> is not among the sources; the names it hands out
  (\<^verbatim>\<open>binder.data\<close>, \<^verbatim>\<open>binder.extra\<close>, \<^verbatim>\<open>binder.opt_fields\<close>, \<^verbatim>\<open>binder.field(f)\<close>) and the names
  built by \<^verbatim>\<open>GenState\<close> are kept apart by constructor. The optional number is the path suffix of
  \<^verbatim>\<open>_with_path_suffix\<close>: none for the root path.
\<close>

datatype var =
    VData "nat option"
  | VKnownKeys "nat option"
  | VExtra "nat option"
  | VExtraSet "nat option"
  | VRawField string
  | VField string
  | VOptFields

datatype expr =
    Var var
  | Subscript var key
  | EmptyDict
  | Lit pyval
  | CallLoader string expr

datatype err_expr =
    NoRequiredFieldsErrorE "key list"
  | NoRequiredItemsErrorE nat
  | TypeLoadErrorE pytype
  | ExtraFieldsErrorE var
  | ExtraItemsErrorE nat
  | CaughtE
  | AppendTrailE err_expr key
  | ExtendTrailE err_expr crown_path

datatype cond =
    TypeIsStr var
  | NotIsMapping var
  | NotIsSequence var
  | LenNe var nat
  | LenLt var nat
  | SetNonEmpty var
  | ErrorsNonEmpty
  | HasUnexpectedError

datatype group_kind = CompatGroup | LoadGroup

datatype stmt =
    Assign var expr
  | AssignItem var key expr
  | AssignSetDiff var var var
  | ForCollect var var var
  | IfS cond "stmt list" "stmt list"
  | TryS "stmt list" "handler list" "stmt list"
  | Raise err_expr
  | Reraise
  | Pass
  | ErrorsAppend err_expr
  | ExprStmt err_expr
  | InitErrors
  | SetHasUnexpectedError bool
  | RaiseGroup group_kind
and handler = Handler "exc_class list" "stmt list"

section \<open>Running the emitted code\<close>

record rstate =
  vals :: "var \<Rightarrow> pyval option"
  sets :: "var \<Rightarrow> pyval set option"
  errors :: "exc list option"
  has_unexpected_error :: "bool option"
  caught :: "exc option"

text \<open>
  \<open>Stuck\<close> marks what the model leaves open: the collecting loop over data or an overflow
  holder that is not a mapping, where Python's result depends on the iteration order of a set,
  and the bare \<^verbatim>\<open>raise\<close> outside a handler.
\<close>

datatype outcome = Normal (final: rstate) | Raised (raised: exc) (final: rstate) | Stuck

type_synonym loader_fn = "pyval \<Rightarrow> exc + pyval"

definition builtin_exc :: "exc_kind \<Rightarrow> exc" where
  "builtin_exc k = Exc k []"

definition lift_kind :: "exc_kind + 'a \<Rightarrow> exc + 'a" where
  "lift_kind r = (case r of Inl k \<Rightarrow> Inl (builtin_exc k) | Inr v \<Rightarrow> Inr v)"

definition read_var :: "rstate \<Rightarrow> var \<Rightarrow> exc + pyval" where
  "read_var s v = (case vals s v of None \<Rightarrow> Inl (builtin_exc PyNameError) | Some x \<Rightarrow> Inr x)"

definition read_set :: "rstate \<Rightarrow> var \<Rightarrow> exc + pyval set" where
  "read_set s v = (case sets s v of None \<Rightarrow> Inl (builtin_exc PyNameError) | Some x \<Rightarrow> Inr x)"

fun eval_expr :: "(string \<Rightarrow> loader_fn option) \<Rightarrow> rstate \<Rightarrow> expr \<Rightarrow> exc + pyval" where
  "eval_expr L s (Var v) = read_var s v"
| "eval_expr L s (Subscript v k) =
     (case read_var s v of Inl e \<Rightarrow> Inl e | Inr c \<Rightarrow> lift_kind (py_getitem c k))"
| "eval_expr L s EmptyDict = Inr (PDict [])"
| "eval_expr L s (Lit x) = Inr x"
| "eval_expr L s (CallLoader f a) =
     (case eval_expr L s a of
        Inl e \<Rightarrow> Inl e
      | Inr x \<Rightarrow> (case L f of None \<Rightarrow> Inl (builtin_exc PyNameError) | Some ld \<Rightarrow> ld x))"

fun eval_err :: "rstate \<Rightarrow> err_expr \<Rightarrow> exc + exc" where
  "eval_err s (NoRequiredFieldsErrorE ks) = Inr (Exc (NoRequiredFieldsError ks) [])"
| "eval_err s (NoRequiredItemsErrorE n) = Inr (Exc (NoRequiredItemsError n) [])"
| "eval_err s (TypeLoadErrorE t) = Inr (Exc (TypeLoadError t) [])"
| "eval_err s (ExtraFieldsErrorE v) =
     (case read_set s v of Inl e \<Rightarrow> Inl e | Inr ks \<Rightarrow> Inr (Exc (ExtraFieldsError ks) []))"
| "eval_err s (ExtraItemsErrorE n) = Inr (Exc (ExtraItemsError n) [])"
| "eval_err s CaughtE =
     (case caught s of None \<Rightarrow> Inl (builtin_exc PyNameError) | Some e \<Rightarrow> Inr e)"
| "eval_err s (AppendTrailE x k) =
     (case eval_err s x of Inl e \<Rightarrow> Inl e | Inr e \<Rightarrow> Inr (append_trail e k))"
| "eval_err s (ExtendTrailE x p) =
     (case eval_err s x of Inl e \<Rightarrow> Inl e | Inr e \<Rightarrow> Inr (extend_trail e p))"

text \<open>Whether an error expression decorates the caught exception \<^verbatim>\<open>e\<close> itself (in place).\<close>

fun on_caught :: "err_expr \<Rightarrow> bool" where
  "on_caught CaughtE = True"
| "on_caught (AppendTrailE x k) = on_caught x"
| "on_caught (ExtendTrailE x p) = on_caught x"
| "on_caught x = False"

definition len_of :: "rstate \<Rightarrow> var \<Rightarrow> exc + nat" where
  "len_of s v = (case read_var s v of Inl e \<Rightarrow> Inl e | Inr x \<Rightarrow> lift_kind (py_len x))"

fun eval_cond :: "rstate \<Rightarrow> cond \<Rightarrow> exc + bool" where
  "eval_cond s (TypeIsStr v) =
     (case read_var s v of Inl e \<Rightarrow> Inl e | Inr x \<Rightarrow> Inr (is_str x))"
| "eval_cond s (NotIsMapping v) =
     (case read_var s v of Inl e \<Rightarrow> Inl e | Inr x \<Rightarrow> Inr (\<not> is_mapping x))"
| "eval_cond s (NotIsSequence v) =
     (case read_var s v of Inl e \<Rightarrow> Inl e | Inr x \<Rightarrow> Inr (\<not> is_sequence x))"
| "eval_cond s (LenNe v n) =
     (case len_of s v of Inl e \<Rightarrow> Inl e | Inr m \<Rightarrow> Inr (m \<noteq> n))"
| "eval_cond s (LenLt v n) =
     (case len_of s v of Inl e \<Rightarrow> Inl e | Inr m \<Rightarrow> Inr (m < n))"
| "eval_cond s (SetNonEmpty v) =
     (case read_set s v of Inl e \<Rightarrow> Inl e | Inr ks \<Rightarrow> Inr (ks \<noteq> {}))"
| "eval_cond s ErrorsNonEmpty =
     (case errors s of None \<Rightarrow> Inl (builtin_exc PyNameError) | Some es \<Rightarrow> Inr (es \<noteq> []))"
| "eval_cond s HasUnexpectedError =
     (case has_unexpected_error s of None \<Rightarrow> Inl (builtin_exc PyNameError) | Some b \<Rightarrow> Inr b)"

text \<open>
  \<^verbatim>\<open>for key in set(data) - known_keys: extra[key] = data[key]\<close> over a mapping. Python leaves the
  iteration order open; the copy below follows the order of the mapping, which decides the order
  of the entries only, not the mapping built.
\<close>

definition collect_extra :: "(key \<times> pyval) list \<Rightarrow> pyval set \<Rightarrow> (key \<times> pyval) list \<Rightarrow> (key \<times> pyval) list" where
  "collect_extra kvs known ex =
     foldl (\<lambda>acc k. case map_of kvs k of None \<Rightarrow> acc | Some v \<Rightarrow> AList.update k v acc) ex
       (filter (\<lambda>k. key_val k \<notin> known) (remdups (map fst kvs)))"

definition set_val :: "var \<Rightarrow> pyval \<Rightarrow> rstate \<Rightarrow> rstate" where
  "set_val v x s = s\<lparr>vals := (vals s)(v \<mapsto> x)\<rparr>"

definition set_set :: "var \<Rightarrow> pyval set \<Rightarrow> rstate \<Rightarrow> rstate" where
  "set_set v x s = s\<lparr>sets := (sets s)(v \<mapsto> x)\<rparr>"

fun exec :: "(string \<Rightarrow> loader_fn option) \<Rightarrow> stmt \<Rightarrow> rstate \<Rightarrow> outcome"
and exec_block :: "(string \<Rightarrow> loader_fn option) \<Rightarrow> stmt list \<Rightarrow> rstate \<Rightarrow> outcome"
and exec_handlers :: "(string \<Rightarrow> loader_fn option) \<Rightarrow> handler list \<Rightarrow> exc \<Rightarrow> rstate \<Rightarrow> outcome"
where
  "exec L (Assign v x) s =
     (case eval_expr L s x of Inl e \<Rightarrow> Raised e s | Inr a \<Rightarrow> Normal (set_val v a s))"
| "exec L (AssignItem v k x) s =
     (case eval_expr L s x of
        Inl e \<Rightarrow> Raised e s
      | Inr a \<Rightarrow>
          (case read_var s v of
             Inl e \<Rightarrow> Raised e s
           | Inr c \<Rightarrow>
               (case py_setitem c k a of
                  Inl ek \<Rightarrow> Raised (builtin_exc ek) s
                | Inr c' \<Rightarrow> Normal (set_val v c' s))))"
| "exec L (AssignSetDiff v d kn) s =
     (case read_var s d of
        Inl e \<Rightarrow> Raised e s
      | Inr x \<Rightarrow>
          (case py_set x of
             Inl ek \<Rightarrow> Raised (builtin_exc ek) s
           | Inr ks \<Rightarrow>
               (case read_set s kn of
                  Inl e \<Rightarrow> Raised e s
                | Inr known \<Rightarrow> Normal (set_set v (ks - known) s))))"
| "exec L (ForCollect ex d kn) s =
     (case read_var s d of
        Inl e \<Rightarrow> Raised e s
      | Inr x \<Rightarrow>
          (case py_set x of
             Inl ek \<Rightarrow> Raised (builtin_exc ek) s
           | Inr ks \<Rightarrow>
               (case read_set s kn of
                  Inl e \<Rightarrow> Raised e s
                | Inr known \<Rightarrow>
                    (if ks - known = {} then Normal s
                     else (case x of
                        PDict kvs \<Rightarrow>
                          (case read_var s ex of
                             Inl e \<Rightarrow> Raised e s
                           | Inr (PDict evs) \<Rightarrow>
                               Normal (set_val ex (PDict (collect_extra kvs known evs)) s)
                           | Inr _ \<Rightarrow> Stuck)
                      | _ \<Rightarrow> Stuck)))))"
| "exec L (IfS c thn els) s =
     (case eval_cond s c of
        Inl e \<Rightarrow> Raised e s
      | Inr b \<Rightarrow> (if b then exec_block L thn s else exec_block L els s))"
| "exec L (TryS body hs els) s =
     (case exec_block L body s of
        Normal s' \<Rightarrow> exec_block L els s'
      | Raised e s' \<Rightarrow> exec_handlers L hs e s'
      | Stuck \<Rightarrow> Stuck)"
| "exec L (Raise x) s = (case eval_err s x of Inl e \<Rightarrow> Raised e s | Inr e \<Rightarrow> Raised e s)"
| "exec L Reraise s = (case caught s of None \<Rightarrow> Stuck | Some e \<Rightarrow> Raised e s)"
| "exec L Pass s = Normal s"
| "exec L (ErrorsAppend x) s =
     (case eval_err s x of
        Inl e \<Rightarrow> Raised e s
      | Inr e \<Rightarrow>
          (case errors s of
             None \<Rightarrow> Raised (builtin_exc PyNameError) s
           | Some es \<Rightarrow> Normal (s\<lparr>errors := Some (es @ [e])\<rparr>)))"
| "exec L (ExprStmt x) s =
     (case eval_err s x of
        Inl e \<Rightarrow> Raised e s
      | Inr e \<Rightarrow> Normal (if on_caught x then s\<lparr>caught := Some e\<rparr> else s))"
| "exec L InitErrors s = Normal (s\<lparr>errors := Some []\<rparr>)"
| "exec L (SetHasUnexpectedError b) s = Normal (s\<lparr>has_unexpected_error := Some b\<rparr>)"
| "exec L (RaiseGroup g) s =
     (case errors s of
        None \<Rightarrow> Raised (builtin_exc PyNameError) s
      | Some es \<Rightarrow>
          Raised (Exc (case g of
                         CompatGroup \<Rightarrow> CompatExceptionGroup (map render_trail_as_note es)
                       | LoadGroup \<Rightarrow> LoadExceptionGroup (map render_trail_as_note es)) []) s)"
| "exec_block L [] s = Normal s"
| "exec_block L (c # cs) s =
     (case exec L c s of
        Normal s' \<Rightarrow> exec_block L cs s'
      | Raised e s' \<Rightarrow> Raised e s'
      | Stuck \<Rightarrow> Stuck)"
| "exec_handlers L [] e s = Raised e s"
| "exec_handlers L (Handler cls body # hs) e s =
     (if list_ex (exc_matches e) cls
      then (case exec_block L body (s\<lparr>caught := Some e\<rparr>) of
              Normal s' \<Rightarrow> Normal (s'\<lparr>caught := caught s\<rparr>)
            | Raised e' s' \<Rightarrow> Raised e' (s'\<lparr>caught := caught s\<rparr>)
            | Stuck \<Rightarrow> Stuck)
      else exec_handlers L hs e s)"


section \<open>Crowns, fields and the generator's configuration\<close>

text \<open>
  \<^verbatim>\<open>crown_definitions\<close> and \<^verbatim>\<open>model_tools.definitions\<close> are not among the sources; the types
  below carry what the generator reads from them. \<open>ExtraSkip\<close> is the policy that is neither
  \<^verbatim>\<open>ExtraForbid()\<close> nor \<^verbatim>\<open>ExtraCollect()\<close>; \<open>ExtraOther\<close> is an extra move that is neither
  \<^verbatim>\<open>None\<close> nor \<^verbatim>\<open>ExtraTargets\<close>.
\<close>

datatype extra_policy = ExtraForbid | ExtraCollect | ExtraSkip

datatype crown =
    InpDictCrown "(string \<times> crown) list" extra_policy
  | InpListCrown "crown list" extra_policy
  | InpFieldCrown string
  | InpNoneCrown

datatype extra_move = ExtraTargets "string list" | ExtraOther

datatype debug_trail = TrailDisable | TrailFirst | TrailAll

record input_field =
  fid :: string
  is_required :: bool

definition is_optional :: "input_field \<Rightarrow> bool" where
  "is_optional f = (\<not> is_required f)"

text \<open>A loader is the identity stub \<^verbatim>\<open>as_is_stub\<close> or some other function.\<close>

datatype loader = AsIsStub | LoaderFn loader_fn

record extraction_gen =
  shape_fields :: "input_field list"
  layout_crown :: crown
  layout_extra_move :: "extra_move option"
  debug_trail :: debug_trail
  strict_coercion :: bool
  field_loaders :: "(string \<times> loader) list"

text \<open>\<^verbatim>\<open>{field.id: field for field in self._shape.fields}\<close>: a later field of the same id wins.\<close>

definition name_to_field :: "extraction_gen \<Rightarrow> string \<Rightarrow> input_field option" where
  "name_to_field g = map_of (rev (map (\<lambda>f. (fid f, f)) (shape_fields g)))"

definition can_collect_extra :: "extraction_gen \<Rightarrow> bool" where
  "can_collect_extra g = (layout_extra_move g \<noteq> None)"

definition is_extra_target :: "extraction_gen \<Rightarrow> input_field \<Rightarrow> bool" where
  "is_extra_target g f =
     (case layout_extra_move g of
        Some (ExtraTargets ids) \<Rightarrow> fid f \<in> set ids
      | _ \<Rightarrow> False)"

section \<open>GenState\<close>

text \<open>
  The builder is not part of the record: every generator function returns the statements it
  appends to \<^verbatim>\<open>state.builder\<close>. Of \<^verbatim>\<open>ctx_namespace\<close> the record keeps the known-keys sets;
  the loaders are looked up by field id when the code runs.
\<close>

record gstate =
  field_id_to_path :: "(string \<times> crown_path) list"
  path_to_suffix :: "(crown_path \<times> nat) list"
  last_path_idx :: nat
  path :: crown_path
  parent_path :: "crown_path option"
  crown_stack :: "crown list"
  checked_type_paths :: "crown_path set"
  ctx_known_keys :: "(var \<times> pyval set) list"

text \<open>Exceptions that end the generation itself.\<close>

datatype cerror = CompTypeError | CompKeyError | CompValueError | CompIndexError | CompAttributeError

datatype 'a gres =
    Done (gres_val: 'a) (gres_state: gstate)
  | Failed (gres_error: cerror) (gres_state: gstate)

definition get_path_idx :: "crown_path \<Rightarrow> gstate \<Rightarrow> nat \<times> gstate" where
  "get_path_idx p st =
     (case map_of (path_to_suffix st) p of
        Some suffix \<Rightarrow> (suffix, st)
      | None \<Rightarrow>
          (last_path_idx st + 1,
           st\<lparr>last_path_idx := last_path_idx st + 1,
              path_to_suffix := path_to_suffix st @ [(p, last_path_idx st + 1)]\<rparr>))"

definition with_path_suffix :: "(nat option \<Rightarrow> var) \<Rightarrow> crown_path \<Rightarrow> gstate \<Rightarrow> var \<times> gstate" where
  "with_path_suffix basis p st =
     (if p = [] then (basis None, st)
      else (case get_path_idx p st of (i, st') \<Rightarrow> (basis (Some i), st')))"

definition v_data :: "gstate \<Rightarrow> var \<times> gstate" where
  "v_data st = with_path_suffix VData (path st) st"

definition v_known_keys :: "gstate \<Rightarrow> var \<times> gstate" where
  "v_known_keys st = with_path_suffix VKnownKeys (path st) st"

definition v_extra :: "gstate \<Rightarrow> var \<times> gstate" where
  "v_extra st = with_path_suffix VExtra (path st) st"

text \<open>The property \<^verbatim>\<open>parent_path\<close> raises \<^verbatim>\<open>ValueError\<close> at the root.\<close>

definition v_parent_data :: "gstate \<Rightarrow> var gres" where
  "v_parent_data st =
     (case parent_path st of
        None \<Rightarrow> Failed CompValueError st
      | Some pp \<Rightarrow> (case with_path_suffix VData pp st of (v, st') \<Rightarrow> Done v st'))"

definition v_parent_extra :: "gstate \<Rightarrow> var gres" where
  "v_parent_extra st =
     (case parent_path st of
        None \<Rightarrow> Failed CompValueError st
      | Some pp \<Rightarrow> (case with_path_suffix VExtra pp st of (v, st') \<Rightarrow> Done v st'))"

text \<open>\<^verbatim>\<open>f"{extra}_set"\<close>: the name of the overflow holder with \<^verbatim>\<open>_set\<close> appended.\<close>

fun extra_set_var :: "var \<Rightarrow> var" where
  "extra_set_var (VExtra i) = VExtraSet i"
| "extra_set_var v = v"

text \<open>\<^verbatim>\<open>self._crown_stack[-2]\<close>.\<close>

definition parent_crown :: "gstate \<Rightarrow> crown option" where
  "parent_crown st =
     (if length (crown_stack st) < 2 then None
      else Some (crown_stack st ! (length (crown_stack st) - 2)))"

text \<open>\<^verbatim>\<open>len(crown.map)\<close> of a branch crown.\<close>

fun crown_map_len :: "crown \<Rightarrow> nat option" where
  "crown_map_len (InpDictCrown m pol) = Some (length m)"
| "crown_map_len (InpListCrown cs pol) = Some (length cs)"
| "crown_map_len c = None"

definition with_trail :: "debug_trail \<Rightarrow> err_expr \<Rightarrow> crown_path \<Rightarrow> err_expr" where
  "with_trail mode error_expr p =
     (if mode = TrailFirst \<or> mode = TrailAll
      then (if length p = 0 then error_expr
            else if length p = 1 then AppendTrailE error_expr (hd p)
            else ExtendTrailE error_expr p)
      else error_expr)"

definition emit_error :: "debug_trail \<Rightarrow> err_expr \<Rightarrow> gstate \<Rightarrow> stmt" where
  "emit_error mode error_expr st =
     (if mode = TrailAll then ErrorsAppend (with_trail mode error_expr (path st))
      else Raise (with_trail mode error_expr (path st)))"

definition emit_error_for_from_data_assigment :: "debug_trail \<Rightarrow> err_expr \<Rightarrow> gstate \<Rightarrow> stmt gres" where
  "emit_error_for_from_data_assigment mode error_expr st =
     (if mode = TrailAll
      then (case path st of
              [] \<Rightarrow> Failed CompIndexError st
            | _ \<Rightarrow>
                (case last (path st) of
                   KStr k \<Rightarrow>
                     (case parent_path st of
                        None \<Rightarrow> Failed CompValueError st
                      | Some pp \<Rightarrow> Done (ErrorsAppend (with_trail mode error_expr pp)) st)
                 | KInt i \<Rightarrow> Done Pass st))
      else (case parent_path st of
              None \<Rightarrow> Failed CompValueError st
            | Some pp \<Rightarrow> Done (Raise (with_trail mode error_expr pp)) st))"


section \<open>BuiltinInputExtractionGen\<close>

text \<open>
  \<^verbatim>\<open>_gen_assigment_from_parent_data\<close> emits a \<^verbatim>\<open>try\<close> statement whose \<^verbatim>\<open>else\<close> branch, if any, is
  added by the caller: the function returns the body and the handlers.
\<close>

definition lookup_plan :: "gstate \<Rightarrow> (exc_class \<times> exc_class list \<times> err_expr \<times> err_expr) gres" where
  "lookup_plan st =
     (case path st of
        [] \<Rightarrow> Failed CompIndexError st
      | _ \<Rightarrow>
          (case last (path st) of
             KStr k \<Rightarrow>
               Done (CKeyError, [CTypeError, CIndexError], TypeLoadErrorE PyDict,
                     NoRequiredFieldsErrorE [last (path st)]) st
           | KInt i \<Rightarrow>
               (case parent_crown st of
                  None \<Rightarrow> Failed CompIndexError st
                | Some pc \<Rightarrow>
                    (case crown_map_len pc of
                       None \<Rightarrow> Failed CompAttributeError st
                     | Some n \<Rightarrow>
                         Done (CIndexError, [CTypeError, CKeyError], TypeLoadErrorE PyList,
                               NoRequiredItemsErrorE n) st))))"

definition gen_assigment_from_parent_data ::
  "extraction_gen \<Rightarrow> var \<Rightarrow> bool \<Rightarrow> gstate \<Rightarrow> (stmt list \<times> handler list) gres" where
  "gen_assigment_from_parent_data g assign_to ignore_lookup_error st =
     (case lookup_plan st of
        Failed e st0 \<Rightarrow> Failed e st0
      | Done (lookup_error, bad_type_error, bad_type_load_error, not_found_error) st0 \<Rightarrow>
        (case v_parent_data st0 of
           Failed e st1 \<Rightarrow> Failed e st1
         | Done parent_data st1 \<Rightarrow>
           (case (if ignore_lookup_error then Done Pass st1
                  else emit_error_for_from_data_assigment (debug_trail g) not_found_error st1) of
              Failed e st2 \<Rightarrow> Failed e st2
            | Done on_lookup_error st2 \<Rightarrow>
              (case parent_path st2 of
                 None \<Rightarrow> Failed CompValueError st2
               | Some pp \<Rightarrow>
                 (case (if pp \<notin> checked_type_paths st2
                        then ([Handler bad_type_error
                                 [Raise (with_trail (debug_trail g) bad_type_load_error pp)]],
                              st2\<lparr>checked_type_paths := insert pp (checked_type_paths st2)\<rparr>)
                        else ([], st2)) of
                    (type_handlers, st3) \<Rightarrow>
                      Done
                        ([Assign assign_to (Subscript parent_data (last (path st)))],
                         [Handler [lookup_error] [on_lookup_error]]
                         @ type_handlers
                         @ (case debug_trail g of
                              TrailFirst \<Rightarrow>
                                [Handler [CException]
                                   [ExprStmt (with_trail (debug_trail g) CaughtE (path st3)), Reraise]]
                            | TrailAll \<Rightarrow>
                                [Handler [CException]
                                   [ErrorsAppend (with_trail (debug_trail g) CaughtE (path st3)),
                                    SetHasUnexpectedError True]]
                            | TrailDisable \<Rightarrow> []))
                        st3)))))"

definition gen_add_self_extra_to_parent_extra :: "gstate \<Rightarrow> stmt list gres" where
  "gen_add_self_extra_to_parent_extra st =
     (if path st = [] then Done [] st
      else (case v_parent_extra st of
              Failed e st1 \<Rightarrow> Failed e st1
            | Done parent_extra st1 \<Rightarrow>
                (case v_extra st1 of
                   (extra, st2) \<Rightarrow> Done [AssignItem parent_extra (last (path st1)) (Var extra)] st2)))"

text \<open>The left side of a field assignment: \<^verbatim>\<open>binder.field(field)\<close> or \<^verbatim>\<open>opt_fields['id']\<close>.\<close>

datatype target = ToField string | ToOptFields string

fun assign_target :: "target \<Rightarrow> expr \<Rightarrow> stmt" where
  "assign_target (ToField f) x = Assign (VField f) x"
| "assign_target (ToOptFields f) x = AssignItem VOptFields (KStr f) x"

definition gen_field_assigment ::
  "extraction_gen \<Rightarrow> target \<Rightarrow> string \<Rightarrow> expr \<Rightarrow> gstate \<Rightarrow> stmt list gres" where
  "gen_field_assigment g assign_to field_id loader_arg st =
     (case map_of (field_loaders g) field_id of
        None \<Rightarrow> Failed CompKeyError st
      | Some ld \<Rightarrow>
          (let processing_expr =
                 (case ld of AsIsStub \<Rightarrow> loader_arg | LoaderFn h \<Rightarrow> CallLoader field_id loader_arg)
           in if debug_trail g = TrailAll \<or> debug_trail g = TrailFirst
              then Done [TryS [assign_target assign_to processing_expr]
                              [Handler [CException] [emit_error (debug_trail g) CaughtE st]] []] st
              else Done [assign_target assign_to processing_expr] st))"

text \<open>\<^verbatim>\<open>GenState.get_field\<close> records the path before it looks the field up.\<close>

definition get_field :: "extraction_gen \<Rightarrow> string \<Rightarrow> gstate \<Rightarrow> input_field gres" where
  "get_field g crown_id st =
     (let st1 = st\<lparr>field_id_to_path := AList.update crown_id (path st) (field_id_to_path st)\<rparr>
      in case name_to_field g crown_id of
           None \<Rightarrow> Failed CompKeyError st1
         | Some field \<Rightarrow> Done field st1)"

definition gen_field_crown :: "extraction_gen \<Rightarrow> string \<Rightarrow> gstate \<Rightarrow> stmt list gres" where
  "gen_field_crown g crown_id st =
     (case get_field g crown_id st of
        Failed e st1 \<Rightarrow> Failed e st1
      | Done field st1 \<Rightarrow>
          (case gen_assigment_from_parent_data g (VRawField (fid field)) (\<not> is_required field) st1 of
             Failed e st2 \<Rightarrow> Failed e st2
           | Done (body, handlers) st2 \<Rightarrow>
               (case gen_field_assigment g
                       (if is_required field then ToField (fid field) else ToOptFields (fid field))
                       (fid field) (Var (VRawField (fid field))) st2 of
                  Failed e st3 \<Rightarrow> Failed e st3
                | Done els st3 \<Rightarrow> Done [TryS body handlers els] st3)))"

text \<open>\<^verbatim>\<open>GenState.add_key\<close>: the two halves of the context manager, around the \<^verbatim>\<open>yield\<close>.\<close>

definition add_key_enter :: "crown \<Rightarrow> key \<Rightarrow> gstate \<Rightarrow> gstate" where
  "add_key_enter c k st =
     st\<lparr>parent_path := Some (path st), path := path st @ [k], crown_stack := crown_stack st @ [c]\<rparr>"

definition add_key_exit :: "crown_path \<Rightarrow> crown_path option \<Rightarrow> gstate \<Rightarrow> gstate" where
  "add_key_exit past past_parent st =
     st\<lparr>crown_stack := butlast (crown_stack st), path := past, parent_path := past_parent\<rparr>"

text \<open>The list literal that starts the overflow holder of a list crown.\<close>

fun list_literal_item :: "crown \<Rightarrow> pyval" where
  "list_literal_item (InpFieldCrown f) = PDict []"
| "list_literal_item InpNoneCrown = PDict []"
| "list_literal_item c = PNone"

text \<open>The length check that ends \<^verbatim>\<open>_gen_list_crown\<close>.\<close>

definition gen_list_len_check :: "debug_trail \<Rightarrow> extra_policy \<Rightarrow> nat \<Rightarrow> var \<Rightarrow> gstate \<Rightarrow> stmt list" where
  "gen_list_len_check mode pol list_len data st =
     (if pol = ExtraForbid
      then [IfS (LenNe data list_len)
              [IfS (LenLt data list_len)
                 [emit_error mode (NoRequiredItemsErrorE list_len) st]
                 [emit_error mode (ExtraItemsErrorE list_len) st]]
              []]
      else [IfS (LenLt data list_len)
              [emit_error mode (NoRequiredItemsErrorE list_len) st]
              []])"

text \<open>The check of unknown keys that ends \<^verbatim>\<open>_gen_dict_crown\<close>.\<close>

definition gen_dict_extra_check :: "debug_trail \<Rightarrow> extra_policy \<Rightarrow> var \<Rightarrow> var \<Rightarrow> var \<Rightarrow> gstate \<Rightarrow> stmt list" where
  "gen_dict_extra_check mode pol data extra known_keys st =
     (if pol = ExtraForbid
      then [AssignSetDiff (extra_set_var extra) data known_keys,
            IfS (SetNonEmpty (extra_set_var extra))
              [emit_error mode (ExtraFieldsErrorE (extra_set_var extra)) st] []]
      else if pol = ExtraCollect
      then [ForCollect extra data known_keys]
      else [])"


text \<open>The statements of \<^verbatim>\<open>_gen_dict_crown\<close> before the loop over the children.\<close>

definition gen_dict_crown_head :: "extraction_gen \<Rightarrow> gstate \<Rightarrow> stmt list gres" where
  "gen_dict_crown_head g st =
     (case (if path st \<noteq> []
            then (case v_data st of
                    (data, st0) \<Rightarrow>
                      (case gen_assigment_from_parent_data g data False st0 of
                         Failed e st1 \<Rightarrow> Failed e st1
                       | Done (body, handlers) st1 \<Rightarrow> Done [TryS body handlers []] st1))
            else Done [] st) of
        Failed e st1 \<Rightarrow> Failed e st1
      | Done code1 st1 \<Rightarrow>
          (if can_collect_extra g
           then (case v_extra st1 of (extra, st2) \<Rightarrow> Done (code1 @ [Assign extra EmptyDict]) st2)
           else Done code1 st1))"

text \<open>The statements of \<^verbatim>\<open>_gen_dict_crown\<close> after the loop over the children.\<close>

definition gen_dict_crown_tail ::
  "extraction_gen \<Rightarrow> (string \<times> crown) list \<Rightarrow> extra_policy \<Rightarrow> gstate \<Rightarrow> stmt list gres" where
  "gen_dict_crown_tail g m pol st =
     (case (if m = []
            then (case v_data st of
                    (data, st1) \<Rightarrow>
                      ([IfS (NotIsMapping data)
                          [Raise (with_trail (debug_trail g) (TypeLoadErrorE PyDict) (path st1))] []],
                       st1))
            else ([], st)) of
        (code1, st1) \<Rightarrow>
          (case (if pol = ExtraForbid \<or> pol = ExtraCollect
                 then (case v_known_keys st1 of
                         (known_keys, st2) \<Rightarrow>
                           st2\<lparr>ctx_known_keys :=
                                 AList.update known_keys (set (map (\<lambda>kc. PStr (fst kc)) m))
                                   (ctx_known_keys st2)\<rparr>)
                 else st1) of
             st2 \<Rightarrow>
               (case v_data st2 of
                  (data, st3) \<Rightarrow>
                    (case v_extra st3 of
                       (extra, st4) \<Rightarrow>
                         (case (if pol = ExtraForbid \<or> pol = ExtraCollect
                                then (case v_known_keys st4 of
                                        (known_keys, st5) \<Rightarrow>
                                          (gen_dict_extra_check (debug_trail g) pol data extra
                                             known_keys st5, st5))
                                else ([], st4)) of
                            (code2, st5) \<Rightarrow>
                              (case (if can_collect_extra g
                                     then gen_add_self_extra_to_parent_extra st5
                                     else Done [] st5) of
                                 Failed e st6 \<Rightarrow> Failed e st6
                               | Done code3 st6 \<Rightarrow> Done (code1 @ code2 @ code3) st6))))))"

text \<open>The statements of \<^verbatim>\<open>_gen_list_crown\<close> before the loop over the children.\<close>

definition gen_list_crown_head :: "extraction_gen \<Rightarrow> crown list \<Rightarrow> gstate \<Rightarrow> stmt list gres" where
  "gen_list_crown_head g cs st =
     (case (if path st \<noteq> []
            then (case v_data st of
                    (data, st0) \<Rightarrow>
                      (case gen_assigment_from_parent_data g data False st0 of
                         Failed e st1 \<Rightarrow> Failed e st1
                       | Done (body, handlers) st1 \<Rightarrow> Done [TryS body handlers []] st1))
            else Done [] st) of
        Failed e st1 \<Rightarrow> Failed e st1
      | Done code1 st1 \<Rightarrow>
          (case (if strict_coercion g
                 then (case v_data st1 of
                         (data, st2) \<Rightarrow>
                           ([IfS (TypeIsStr data)
                               [Raise (with_trail (debug_trail g) (TypeLoadErrorE PyList) (path st2))]
                               []],
                            st2))
                 else ([], st1)) of
             (code2, st2) \<Rightarrow>
               (if can_collect_extra g
                then (case v_extra st2 of
                        (extra, st3) \<Rightarrow>
                          Done (code1 @ code2
                                @ [Assign extra (Lit (PList (map list_literal_item cs)))]) st3)
                else Done (code1 @ code2) st2)))"

text \<open>The statements of \<^verbatim>\<open>_gen_list_crown\<close> after the loop over the children.\<close>

definition gen_list_crown_tail ::
  "extraction_gen \<Rightarrow> crown list \<Rightarrow> extra_policy \<Rightarrow> gstate \<Rightarrow> stmt list gres" where
  "gen_list_crown_tail g cs pol st =
     (case (if cs = []
            then (case v_data st of
                    (data, st1) \<Rightarrow>
                      ([IfS (NotIsSequence data)
                          [Raise (with_trail (debug_trail g) (TypeLoadErrorE PyList) (path st1))] []],
                       st1))
            else ([], st)) of
        (code1, st1) \<Rightarrow>
          (case v_data st1 of
             (data, st2) \<Rightarrow>
               (case (if can_collect_extra g
                      then gen_add_self_extra_to_parent_extra st2
                      else Done [] st2) of
                  Failed e st3 \<Rightarrow> Failed e st3
                | Done code3 st3 \<Rightarrow>
                    Done (code1
                          @ gen_list_len_check (debug_trail g) pol (length cs) data st2
                          @ code3) st3)))"

text \<open>
  The dispatch over the crown kinds. \<open>gen_dict_items\<close> and \<open>gen_list_items\<close> are the loops
  \<^verbatim>\<open>for key, value in crown.map.items()\<close> and \<^verbatim>\<open>for key, value in enumerate(crown.map)\<close>. When the
  body of \<^verbatim>\<open>with state.add_key(...)\<close> raises, the context manager's code after its \<^verbatim>\<open>yield\<close> does
  not run.
\<close>

function (sequential) gen_root_crown_dispatch :: "extraction_gen \<Rightarrow> crown \<Rightarrow> gstate \<Rightarrow> (bool \<times> stmt list) gres"
and gen_crown_dispatch :: "extraction_gen \<Rightarrow> crown \<Rightarrow> key \<Rightarrow> gstate \<Rightarrow> stmt list gres"
and gen_dict_crown ::
  "extraction_gen \<Rightarrow> (string \<times> crown) list \<Rightarrow> extra_policy \<Rightarrow> gstate \<Rightarrow> stmt list gres"
and gen_list_crown :: "extraction_gen \<Rightarrow> crown list \<Rightarrow> extra_policy \<Rightarrow> gstate \<Rightarrow> stmt list gres"
and gen_dict_items :: "extraction_gen \<Rightarrow> (string \<times> crown) list \<Rightarrow> gstate \<Rightarrow> stmt list gres"
and gen_list_items :: "extraction_gen \<Rightarrow> crown list \<Rightarrow> nat \<Rightarrow> gstate \<Rightarrow> stmt list gres"
where
  "gen_root_crown_dispatch g (InpDictCrown m pol) st =
     (case gen_dict_crown g m pol st of
        Failed e st1 \<Rightarrow> Failed e st1
      | Done code st1 \<Rightarrow> Done (True, code) st1)"
| "gen_root_crown_dispatch g (InpListCrown cs pol) st =
     (case gen_list_crown g cs pol st of
        Failed e st1 \<Rightarrow> Failed e st1
      | Done code st1 \<Rightarrow> Done (True, code) st1)"
| "gen_root_crown_dispatch g (InpFieldCrown f) st = Done (False, []) st"
| "gen_root_crown_dispatch g InpNoneCrown st = Done (False, []) st"
| "gen_crown_dispatch g sub_crown k st =
     (case (case gen_root_crown_dispatch g sub_crown (add_key_enter sub_crown k st) of
              Failed e st1 \<Rightarrow> Failed e st1
            | Done (generated, code) st1 \<Rightarrow>
                (if generated then Done code st1
                 else (case sub_crown of
                         InpFieldCrown f \<Rightarrow> gen_field_crown g f st1
                       | InpNoneCrown \<Rightarrow> Done [] st1
                       | _ \<Rightarrow> Failed CompTypeError st1))) of
        Failed e st2 \<Rightarrow> Failed e st2
      | Done code st2 \<Rightarrow> Done code (add_key_exit (path st) (parent_path st) st2))"
| "gen_dict_crown g m pol st =
     (case gen_dict_crown_head g st of
        Failed e st1 \<Rightarrow> Failed e st1
      | Done code1 st1 \<Rightarrow>
          (case gen_dict_items g m st1 of
             Failed e st2 \<Rightarrow> Failed e st2
           | Done code2 st2 \<Rightarrow>
               (case gen_dict_crown_tail g m pol st2 of
                  Failed e st3 \<Rightarrow> Failed e st3
                | Done code3 st3 \<Rightarrow> Done (code1 @ code2 @ code3) st3)))"
| "gen_list_crown g cs pol st =
     (case gen_list_crown_head g cs st of
        Failed e st1 \<Rightarrow> Failed e st1
      | Done code1 st1 \<Rightarrow>
          (case gen_list_items g cs 0 st1 of
             Failed e st2 \<Rightarrow> Failed e st2
           | Done code2 st2 \<Rightarrow>
               (case gen_list_crown_tail g cs pol st2 of
                  Failed e st3 \<Rightarrow> Failed e st3
                | Done code3 st3 \<Rightarrow> Done (code1 @ code2 @ code3) st3)))"
| "gen_dict_items g [] st = Done [] st"
| "gen_dict_items g ((k, c) # kcs) st =
     (case gen_crown_dispatch g c (KStr k) st of
        Failed e st1 \<Rightarrow> Failed e st1
      | Done code1 st1 \<Rightarrow>
          (case gen_dict_items g kcs st1 of
             Failed e st2 \<Rightarrow> Failed e st2
           | Done code2 st2 \<Rightarrow> Done (code1 @ code2) st2))"
| "gen_list_items g [] i st = Done [] st"
| "gen_list_items g (c # cs) i st =
     (case gen_crown_dispatch g c (KInt (int i)) st of
        Failed e st1 \<Rightarrow> Failed e st1
      | Done code1 st1 \<Rightarrow>
          (case gen_list_items g cs (Suc i) st1 of
             Failed e st2 \<Rightarrow> Failed e st2
           | Done code2 st2 \<Rightarrow> Done (code1 @ code2) st2))"

  by pat_completeness auto
termination
  apply (relation "inv_image (less_than <*lex*> less_than)
     (\<lambda>x. case x of
        Inl (Inl (g, c, st)) \<Rightarrow> (size c, 1::nat)
      | Inl (Inr (Inl (g, c, k, st))) \<Rightarrow> (size c, 2)
      | Inl (Inr (Inr (g, m, pol, st))) \<Rightarrow> (size_list (size_prod (\<lambda>_. 0) size) m, 1)
      | Inr (Inl (g, cs, pol, st)) \<Rightarrow> (size_list size cs, 1)
      | Inr (Inr (Inl (g, m, st))) \<Rightarrow> (size_list (size_prod (\<lambda>_. 0) size) m, 0)
      | Inr (Inr (Inr (g, cs, i, st))) \<Rightarrow> (size_list size cs, 0))")
  apply auto
  done

text \<open>\<^verbatim>\<open>_gen_extra_targets_assigment\<close>: its two loops over \<^verbatim>\<open>extra_move.fields\<close>.\<close>

fun gen_targets_collected :: "extraction_gen \<Rightarrow> string list \<Rightarrow> gstate \<Rightarrow> stmt list gres" where
  "gen_targets_collected g [] st = Done [] st"
| "gen_targets_collected g (target # targets) st =
     (case name_to_field g target of
        None \<Rightarrow> Failed CompKeyError st
      | Some field \<Rightarrow>
          (case v_extra st of
             (extra, st1) \<Rightarrow>
               (case gen_field_assigment g (ToField (fid field)) target (Var extra) st1 of
                  Failed e st2 \<Rightarrow> Failed e st2
                | Done code1 st2 \<Rightarrow>
                    (case gen_targets_collected g targets st2 of
                       Failed e st3 \<Rightarrow> Failed e st3
                     | Done code2 st3 \<Rightarrow> Done (code1 @ code2) st3))))"

fun gen_targets_not_collected :: "extraction_gen \<Rightarrow> string list \<Rightarrow> gstate \<Rightarrow> stmt list gres" where
  "gen_targets_not_collected g [] st = Done [] st"
| "gen_targets_not_collected g (target # targets) st =
     (case name_to_field g target of
        None \<Rightarrow> Failed CompKeyError st
      | Some field \<Rightarrow>
          (case (if is_required field
                 then gen_field_assigment g (ToField (fid field)) target EmptyDict st
                 else Done [] st) of
             Failed e st1 \<Rightarrow> Failed e st1
           | Done code1 st1 \<Rightarrow>
               (case gen_targets_not_collected g targets st1 of
                  Failed e st2 \<Rightarrow> Failed e st2
                | Done code2 st2 \<Rightarrow> Done (code1 @ code2) st2)))"

fun crown_extra_policy :: "crown \<Rightarrow> extra_policy option" where
  "crown_extra_policy (InpDictCrown m pol) = Some pol"
| "crown_extra_policy (InpListCrown cs pol) = Some pol"
| "crown_extra_policy c = None"

definition gen_extra_targets_assigment :: "extraction_gen \<Rightarrow> gstate \<Rightarrow> stmt list gres" where
  "gen_extra_targets_assigment g st =
     (case layout_extra_move g of
        Some (ExtraTargets ids) \<Rightarrow>
          (case crown_extra_policy (layout_crown g) of
             None \<Rightarrow> Failed CompAttributeError st
           | Some pol \<Rightarrow>
               (if pol = ExtraCollect then gen_targets_collected g ids st
                else gen_targets_not_collected g ids st))
      | _ \<Rightarrow> Done [] st)"

definition create_state :: "extraction_gen \<Rightarrow> gstate" where
  "create_state g =
     \<lparr>field_id_to_path = [], path_to_suffix = [], last_path_idx = 0, path = [],
      parent_path = None, crown_stack = [layout_crown g], checked_type_paths = {},
      ctx_known_keys = []\<rparr>"

definition has_optional_fields :: "extraction_gen \<Rightarrow> bool" where
  "has_optional_fields g =
     list_ex (\<lambda>fld. is_optional fld \<and> \<not> is_extra_target g fld) (shape_fields g)"

text \<open>
  \<^verbatim>\<open>BuiltinInputExtractionGen.__call__\<close>. The header that \<^verbatim>\<open>_gen_header\<close> puts above the code is
  made of comments and adds no statement.
\<close>

definition call :: "extraction_gen \<Rightarrow> stmt list gres" where
  "call g =
     (case gen_root_crown_dispatch g (layout_crown g) (create_state g) of
        Failed e st1 \<Rightarrow> Failed e st1
      | Done (generated, code) st1 \<Rightarrow>
          (if \<not> generated then Failed CompTypeError st1
           else (case gen_extra_targets_assigment g st1 of
                   Failed e st2 \<Rightarrow> Failed e st2
                 | Done targets_code st2 \<Rightarrow>
                     Done ((if debug_trail g = TrailAll
                            then [InitErrors, SetHasUnexpectedError False] else [])
                           @ (if has_optional_fields g then [Assign VOptFields EmptyDict] else [])
                           @ code
                           @ targets_code
                           @ (if debug_trail g = TrailAll
                              then [IfS ErrorsNonEmpty
                                      [IfS HasUnexpectedError [RaiseGroup CompatGroup] [],
                                       RaiseGroup LoadGroup]
                                      []]
                              else []))
                       st2)))"

section \<open>The compiled procedure\<close>

text \<open>The namespace entry \<^verbatim>\<open>loader_<id>\<close> of each field loader.\<close>

definition loader_env :: "extraction_gen \<Rightarrow> string \<Rightarrow> loader_fn option" where
  "loader_env g f =
     (case map_of (field_loaders g) f of
        None \<Rightarrow> None
      | Some AsIsStub \<Rightarrow> Some Inr
      | Some (LoaderFn h) \<Rightarrow> Some h)"

definition init_rstate :: "gstate \<Rightarrow> pyval \<Rightarrow> rstate" where
  "init_rstate st data =
     \<lparr>vals = [VData None \<mapsto> data], sets = map_of (ctx_known_keys st), errors = None,
      has_unexpected_error = None, caught = None\<rparr>"

text \<open>
  Running the procedure on one raw input: \<open>None\<close> when the generation itself fails, otherwise
  the outcome of the emitted statements; the loaded fields are then in \<open>VField\<close> and
  \<open>VOptFields\<close>.
\<close>

definition run_extraction :: "extraction_gen \<Rightarrow> pyval \<Rightarrow> outcome option" where
  "run_extraction g data =
     (case call g of
        Failed e st \<Rightarrow> None
      | Done code st \<Rightarrow> Some (exec_block (loader_env g) code (init_rstate st data)))"


section \<open>Notions used by the properties\<close>

text \<open>Two generator states at the same place of the crown tree.\<close>

definition same_position :: "gstate \<Rightarrow> gstate \<Rightarrow> bool" where
  "same_position st st' =
     (path st' = path st \<and> parent_path st' = parent_path st \<and> crown_stack st' = crown_stack st)"

text \<open>The path of the second state runs through the child \<open>k\<close> of the first state's path.\<close>

definition inside_child :: "key \<Rightarrow> gstate \<Rightarrow> gstate \<Rightarrow> bool" where
  "inside_child k st st' = (take (Suc (length (path st))) (path st') = path st @ [k])"

text \<open>The path of the second state runs through the path of the first.\<close>

definition below :: "gstate \<Rightarrow> gstate \<Rightarrow> bool" where
  "below st st' = (take (length (path st)) (path st') = path st)"

text \<open>A result that left the generator where it was, or failed somewhere below.\<close>

definition fine :: "gstate \<Rightarrow> 'a gres \<Rightarrow> bool" where
  "fine st r = (case r of Done v st' \<Rightarrow> same_position st st' | Failed e st' \<Rightarrow> below st st')"

text \<open>
  The layout of the spec's example, \<^verbatim>\<open>{"x": f1, "y": {"z": f2}}\<close> with both crowns forbidding
  extra keys, and layouts for the examples further down.
\<close>

definition example_crown :: crown where
  "example_crown =
     InpDictCrown [(''x'', InpFieldCrown ''f1''),
                   (''y'', InpDictCrown [(''z'', InpFieldCrown ''f2'')] ExtraForbid)] ExtraForbid"

definition example_gen :: "debug_trail \<Rightarrow> extraction_gen" where
  "example_gen mode =
     \<lparr>shape_fields = [\<lparr>fid = ''f1'', is_required = True\<rparr>, \<lparr>fid = ''f2'', is_required = True\<rparr>],
      layout_crown = example_crown, layout_extra_move = None, debug_trail = mode,
      strict_coercion = True, field_loaders = [(''f1'', AsIsStub), (''f2'', AsIsStub)]\<rparr>"

text \<open>The same layout with the loader of \<^verbatim>\<open>f2\<close> missing from \<^verbatim>\<open>field_loaders\<close>.\<close>

definition example_gen_no_loader :: extraction_gen where
  "example_gen_no_loader = (example_gen TrailDisable)\<lparr>field_loaders := [(''f1'', AsIsStub)]\<rparr>"

text \<open>
  What the statement built by \<^verbatim>\<open>emit_error\<close> does with an error of kind \<open>k\<close> at path \<open>p\<close>: debug
  trail \<^verbatim>\<open>ALL\<close> appends it, with its path, to the list of errors and goes on; the other two raise
  it at once, \<^verbatim>\<open>FIRST\<close> with the path and the third mode without.
\<close>

definition report :: "debug_trail \<Rightarrow> exc_kind \<Rightarrow> crown_path \<Rightarrow> rstate \<Rightarrow> outcome" where
  "report mode k p s =
     (if mode = TrailAll
      then (case errors s of
              None \<Rightarrow> Raised (builtin_exc PyNameError) s
            | Some es \<Rightarrow> Normal (s\<lparr>errors := Some (es @ [Exc k p])\<rparr>))
      else Raised (Exc k (if mode = TrailFirst then p else [])) s)"

text \<open>
  The generator state of the example while the field crown under \<^verbatim>\<open>"y"\<close>, \<^verbatim>\<open>"z"\<close> is generated,
  and a state of the running procedure in which \<^verbatim>\<open>data\<close> and \<^verbatim>\<open>data_1\<close> are bound.
\<close>

definition example_state_y :: "debug_trail \<Rightarrow> gstate" where
  "example_state_y mode =
     snd (v_data (add_key_enter (InpDictCrown [(''z'', InpFieldCrown ''f2'')] ExtraForbid) (KStr ''y'')
                    (create_state (example_gen mode))))"

definition example_state_z :: "debug_trail \<Rightarrow> gstate" where
  "example_state_z mode = add_key_enter (InpFieldCrown ''f2'') (KStr ''z'') (example_state_y mode)"

definition example_rstate :: "pyval \<Rightarrow> pyval \<Rightarrow> rstate" where
  "example_rstate d d1 =
     \<lparr>vals = [VData None \<mapsto> d, VData (Some 1) \<mapsto> d1],
      sets = [VKnownKeys None \<mapsto> {PStr ''x'', PStr ''y''}, VKnownKeys (Some 1) \<mapsto> {PStr ''z''}],
      errors = Some [], has_unexpected_error = Some False, caught = None\<rparr>"

text \<open>The generator state of the example with a list crown of two fields under \<^verbatim>\<open>"y"\<close>.\<close>

definition example_state_list :: "debug_trail \<Rightarrow> gstate" where
  "example_state_list mode =
     add_key_enter (InpListCrown [InpFieldCrown ''f1'', InpFieldCrown ''f2''] ExtraForbid) (KStr ''y'')
       (create_state (example_gen mode))"

text \<open>
  A value that is not of the shape a child at \<open>k\<close> needs from its container: for a key anything
  but a mapping; for an index \<^verbatim>\<open>None\<close>, a number, or a mapping without that number as a key.
\<close>

fun wrong_container :: "key \<Rightarrow> pyval \<Rightarrow> bool" where
  "wrong_container (KStr k) c = (\<not> is_mapping c)"
| "wrong_container (KInt i) (PList xs) = False"
| "wrong_container (KInt i) (PStr cs) = False"
| "wrong_container (KInt i) (PDict kvs) = (map_of kvs (KInt i) = None)"
| "wrong_container (KInt i) PNone = True"
| "wrong_container (KInt i) (PInt n) = True"

text \<open>The shape a child at \<open>k\<close> needs from its container.\<close>

fun container_type :: "key \<Rightarrow> pytype" where
  "container_type (KStr k) = PyDict"
| "container_type (KInt i) = PyList"

text \<open>The example with the nested crown declared before the field \<^verbatim>\<open>f1\<close>.\<close>

definition example_gen_nested_first :: extraction_gen where
  "example_gen_nested_first =
     (example_gen TrailAll)\<lparr>layout_crown :=
        InpDictCrown [(''y'', InpDictCrown [(''z'', InpFieldCrown ''f2'')] ExtraForbid),
                      (''x'', InpFieldCrown ''f1'')] ExtraForbid\<rparr>"

text \<open>
  What the handler around a loader call does with the loader's own error \<open>e\<close>: debug trail
  \<^verbatim>\<open>ALL\<close> appends it, decorated with the path, and goes on; \<^verbatim>\<open>FIRST\<close> raises it decorated; with
  the trail disabled there is no handler and the error leaves as it came.
\<close>

definition report_loader_error :: "debug_trail \<Rightarrow> exc \<Rightarrow> crown_path \<Rightarrow> rstate \<Rightarrow> outcome" where
  "report_loader_error mode e p s =
     (if mode = TrailAll
      then (case errors s of
              None \<Rightarrow> Raised (builtin_exc PyNameError) s
            | Some es \<Rightarrow> Normal (s\<lparr>errors := Some (es @ [Exc (kind e) (p @ trail e)])\<rparr>))
      else Raised (if mode = TrailFirst then Exc (kind e) (p @ trail e) else e) s)"

text \<open>
  The spec's words for extra targets when the root did not collect: every required target field
  has its loader called on an empty mapping and the result stored as the field; an optional
  target field receives nothing. No variable of the procedure is read.
\<close>

fun saturate_with_empty :: "extraction_gen \<Rightarrow> crown_path \<Rightarrow> string list \<Rightarrow> rstate \<Rightarrow> outcome" where
  "saturate_with_empty g p [] s = Normal s"
| "saturate_with_empty g p (target # targets) s =
     (case name_to_field g target of
        None \<Rightarrow> Stuck
      | Some field \<Rightarrow>
          (if \<not> is_required field then saturate_with_empty g p targets s
           else (case loader_env g target of
                   None \<Rightarrow> Stuck
                 | Some ld \<Rightarrow>
                     (case ld (PDict []) of
                        Inr v \<Rightarrow> saturate_with_empty g p targets (set_val (VField (fid field)) v s)
                      | Inl e \<Rightarrow>
                          (case report_loader_error (debug_trail g) e p s of
                             Normal s' \<Rightarrow> saturate_with_empty g p targets s'
                           | Raised e' s' \<Rightarrow> Raised e' s'
                           | Stuck \<Rightarrow> Stuck)))))"

text \<open>The example with \<^verbatim>\<open>f2\<close> as extra target, a root crown that forbids extra keys, and loaders.\<close>

definition example_gen_targets :: "debug_trail \<Rightarrow> extraction_gen" where
  "example_gen_targets mode =
     \<lparr>shape_fields = [\<lparr>fid = ''f1'', is_required = True\<rparr>, \<lparr>fid = ''f2'', is_required = True\<rparr>,
                      \<lparr>fid = ''f3'', is_required = False\<rparr>],
      layout_crown = InpDictCrown [(''x'', InpFieldCrown ''f1'')] ExtraForbid,
      layout_extra_move = Some (ExtraTargets [''f2'', ''f3'']), debug_trail = mode,
      strict_coercion = True,
      field_loaders = [(''f1'', AsIsStub), (''f2'', LoaderFn (\<lambda>v. Inr (PList [v]))),
                       (''f3'', AsIsStub)]\<rparr>"

text \<open>
  The planned wrong-type checks of a piece of emitted code: for every \<^verbatim>\<open>try\<close> statement that has
  a handler for \<^verbatim>\<open>TypeError\<close>, the containers its body reads from.
\<close>

fun read_containers :: "stmt list \<Rightarrow> var list" where
  "read_containers [] = []"
| "read_containers (Assign a (Subscript d k) # cs) = d # read_containers cs"
| "read_containers (c # cs) = read_containers cs"

fun is_type_handler :: "handler \<Rightarrow> bool" where
  "is_type_handler (Handler cls body) = (CTypeError \<in> set cls)"

fun type_checks :: "stmt \<Rightarrow> var list"
and type_checks_block :: "stmt list \<Rightarrow> var list"
and type_checks_handlers :: "handler list \<Rightarrow> var list"
where
  "type_checks (TryS body hs els) =
     (if list_ex is_type_handler hs then read_containers body else [])
     @ type_checks_block body @ type_checks_handlers hs @ type_checks_block els"
| "type_checks (IfS c thn els) = type_checks_block thn @ type_checks_block els"
| "type_checks (Assign v x) = []"
| "type_checks (AssignItem v k x) = []"
| "type_checks (AssignSetDiff v d kn) = []"
| "type_checks (ForCollect ex d kn) = []"
| "type_checks (Raise x) = []"
| "type_checks Reraise = []"
| "type_checks Pass = []"
| "type_checks (ErrorsAppend x) = []"
| "type_checks (ExprStmt x) = []"
| "type_checks InitErrors = []"
| "type_checks (SetHasUnexpectedError b) = []"
| "type_checks (RaiseGroup gk) = []"
| "type_checks_block [] = []"
| "type_checks_block (c # cs) = type_checks c @ type_checks_block cs"
| "type_checks_handlers [] = []"
| "type_checks_handlers (Handler cls body # hs) = type_checks_block body @ type_checks_handlers hs"

text \<open>
  The name \<^verbatim>\<open>_with_path_suffix\<close> gives to the value at a path: \<^verbatim>\<open>data\<close> for the root, \<^verbatim>\<open>data_i\<close>
  for a path with suffix \<open>i\<close>. A path is named once it is the root or has a suffix.
\<close>

definition data_name :: "gstate \<Rightarrow> crown_path \<Rightarrow> var" where
  "data_name st p = VData (if p = [] then None else map_of (path_to_suffix st) p)"

definition named :: "gstate \<Rightarrow> crown_path \<Rightarrow> bool" where
  "named st p = (p = [] \<or> map_of (path_to_suffix st) p \<noteq> None)"

text \<open>Suffixes are given out once: no two paths share one, and none exceeds the counter.\<close>

definition suffix_wf :: "gstate \<Rightarrow> bool" where
  "suffix_wf st =
     ((\<forall>p q i. map_of (path_to_suffix st) p = Some i \<and> map_of (path_to_suffix st) q = Some i
                \<longrightarrow> p = q) \<and>
      (\<forall>p i. map_of (path_to_suffix st) p = Some i \<longrightarrow> i \<le> last_path_idx st))"

definition suffix_ext :: "gstate \<Rightarrow> gstate \<Rightarrow> bool" where
  "suffix_ext st st' =
     (\<forall>p i. map_of (path_to_suffix st) p = Some i \<longrightarrow> map_of (path_to_suffix st') p = Some i)"

text \<open>
  A step of the generator from \<open>st\<close> to \<open>st'\<close> that emitted \<open>code\<close> plans its checks properly:
  the checks in the code are those of paths that were not in \<^verbatim>\<open>checked_type_paths\<close> before and are
  in it now, one check for each.
\<close>

definition plans :: "gstate \<Rightarrow> stmt list \<Rightarrow> gstate \<Rightarrow> bool" where
  "plans st code st' =
     (suffix_wf st \<longrightarrow>
        suffix_wf st' \<and> suffix_ext st st' \<and>
        (\<exists>ps. distinct ps \<and> set ps \<inter> checked_type_paths st = {} \<and>
              checked_type_paths st' = checked_type_paths st \<union> set ps \<and>
              (\<forall>p \<in> set ps. named st' p) \<and>
              type_checks_block code = map (data_name st') ps))"

text \<open>
  The suffix \<^verbatim>\<open>_with_path_suffix\<close> appends for a path: none for the root, otherwise the number
  \<^verbatim>\<open>path_idx\<close> has given the path.
\<close>

definition suffix_at :: "gstate \<Rightarrow> crown_path \<Rightarrow> nat option" where
  "suffix_at st p = (if p = [] then None else map_of (path_to_suffix st) p)"




text \<open>A list crown with one declared child that forbids further items.\<close>

definition example_gen_list :: "debug_trail \<Rightarrow> crown \<Rightarrow> extraction_gen" where
  "example_gen_list mode child =
     \<lparr>shape_fields = [\<lparr>fid = ''f2'', is_required = True\<rparr>],
      layout_crown = InpListCrown [child] ExtraForbid,
      layout_extra_move = None, debug_trail = mode,
      strict_coercion = True, field_loaders = [(''f2'', AsIsStub)]\<rparr>"

section \<open>The scoped region of add_key\<close>


lemma same_position_refl: "same_position st st"
  by (simp add: same_position_def)

lemma same_position_trans:
  "same_position a b \<Longrightarrow> same_position b c \<Longrightarrow> same_position a c"
  by (simp add: same_position_def)

lemma get_path_idx_position: "get_path_idx p st = (i, st') \<Longrightarrow> same_position st st'"
  by (auto simp: get_path_idx_def same_position_def split: option.splits)

lemma with_path_suffix_position: "with_path_suffix b p st = (v, st') \<Longrightarrow> same_position st st'"
  by (auto simp: with_path_suffix_def same_position_refl split: if_splits prod.splits
      dest: get_path_idx_position)

lemma v_data_position: "v_data st = (v, st') \<Longrightarrow> same_position st st'"
  unfolding v_data_def by (rule with_path_suffix_position)

lemma v_extra_position: "v_extra st = (v, st') \<Longrightarrow> same_position st st'"
  unfolding v_extra_def by (rule with_path_suffix_position)

lemma v_known_keys_position: "v_known_keys st = (v, st') \<Longrightarrow> same_position st st'"
  unfolding v_known_keys_def by (rule with_path_suffix_position)

lemma v_parent_data_position_done: "v_parent_data st = Done r st' \<Longrightarrow> same_position st st'"
  by (auto simp: v_parent_data_def same_position_refl split: option.splits prod.splits
      dest: with_path_suffix_position)

lemma v_parent_data_position_failed: "v_parent_data st = Failed e st' \<Longrightarrow> same_position st st'"
  by (auto simp: v_parent_data_def same_position_refl split: option.splits prod.splits
      dest: with_path_suffix_position)

lemma v_parent_extra_position_done: "v_parent_extra st = Done r st' \<Longrightarrow> same_position st st'"
  by (auto simp: v_parent_extra_def same_position_refl split: option.splits prod.splits
      dest: with_path_suffix_position)

lemma v_parent_extra_position_failed: "v_parent_extra st = Failed e st' \<Longrightarrow> same_position st st'"
  by (auto simp: v_parent_extra_def same_position_refl split: option.splits prod.splits
      dest: with_path_suffix_position)

lemma lookup_plan_state_done: "lookup_plan st = Done r st' \<Longrightarrow> st' = st"
  by (auto simp: lookup_plan_def split: list.splits key.splits option.splits)

lemma lookup_plan_state_failed: "lookup_plan st = Failed e st' \<Longrightarrow> st' = st"
  by (auto simp: lookup_plan_def split: list.splits key.splits option.splits)

lemma emit_error_for_state_done: "emit_error_for_from_data_assigment m x st = Done r st' \<Longrightarrow> st' = st"
  by (auto simp: emit_error_for_from_data_assigment_def
      split: if_splits list.splits key.splits option.splits)

lemma emit_error_for_state_failed: "emit_error_for_from_data_assigment m x st = Failed e st' \<Longrightarrow> st' = st"
  by (auto simp: emit_error_for_from_data_assigment_def
      split: if_splits list.splits key.splits option.splits)

lemma gen_assigment_position_done: "gen_assigment_from_parent_data g v b st = Done r st' \<Longrightarrow> same_position st st'"
  unfolding gen_assigment_from_parent_data_def
  by (auto split: gres.splits prod.splits option.splits if_splits
      dest!: lookup_plan_state_done lookup_plan_state_failed emit_error_for_state_done
        emit_error_for_state_failed v_parent_data_position_done v_parent_data_position_failed
      simp: same_position_def)

lemma gen_assigment_position_failed: "gen_assigment_from_parent_data g v b st = Failed e st' \<Longrightarrow> same_position st st'"
  unfolding gen_assigment_from_parent_data_def
  by (auto split: gres.splits prod.splits option.splits if_splits
      dest!: lookup_plan_state_done lookup_plan_state_failed emit_error_for_state_done
        emit_error_for_state_failed v_parent_data_position_done v_parent_data_position_failed
      simp: same_position_def)

lemma gen_add_self_position_done: "gen_add_self_extra_to_parent_extra st = Done r st' \<Longrightarrow> same_position st st'"
  unfolding gen_add_self_extra_to_parent_extra_def
  by (auto split: gres.splits prod.splits if_splits
      dest!: v_parent_extra_position_done v_parent_extra_position_failed v_extra_position
      simp: same_position_def)

lemma gen_add_self_position_failed: "gen_add_self_extra_to_parent_extra st = Failed e st' \<Longrightarrow> same_position st st'"
  unfolding gen_add_self_extra_to_parent_extra_def
  by (auto split: gres.splits prod.splits if_splits
      dest!: v_parent_extra_position_done v_parent_extra_position_failed v_extra_position
      simp: same_position_def)

lemma gen_field_assigment_state_done: "gen_field_assigment g t f a st = Done r st' \<Longrightarrow> st' = st"
  by (auto simp: gen_field_assigment_def Let_def split: option.splits if_splits)

lemma gen_field_assigment_state_failed: "gen_field_assigment g t f a st = Failed e st' \<Longrightarrow> st' = st"
  by (auto simp: gen_field_assigment_def Let_def split: option.splits if_splits)

lemma get_field_position_done: "get_field g f st = Done r st' \<Longrightarrow> same_position st st'"
  by (auto simp: get_field_def Let_def same_position_def split: option.splits)

lemma get_field_position_failed: "get_field g f st = Failed e st' \<Longrightarrow> same_position st st'"
  by (auto simp: get_field_def Let_def same_position_def split: option.splits)

lemma gen_field_crown_position_done: "gen_field_crown g f st = Done r st' \<Longrightarrow> same_position st st'"
  unfolding gen_field_crown_def
  by (auto split: gres.splits prod.splits
      dest!: get_field_position_done get_field_position_failed gen_assigment_position_done
        gen_assigment_position_failed gen_field_assigment_state_done
        gen_field_assigment_state_failed
      simp: same_position_def)

lemma gen_field_crown_position_failed: "gen_field_crown g f st = Failed e st' \<Longrightarrow> same_position st st'"
  unfolding gen_field_crown_def
  by (auto split: gres.splits prod.splits
      dest!: get_field_position_done get_field_position_failed gen_assigment_position_done
        gen_assigment_position_failed gen_field_assigment_state_done
        gen_field_assigment_state_failed
      simp: same_position_def)

lemma gen_dict_crown_head_position_done: "gen_dict_crown_head g st = Done r st' \<Longrightarrow> same_position st st'"
  unfolding gen_dict_crown_head_def
  by (auto split: gres.splits prod.splits if_splits
      dest!: v_data_position v_extra_position gen_assigment_position_done
        gen_assigment_position_failed
      simp: same_position_def)

lemma gen_dict_crown_head_position_failed: "gen_dict_crown_head g st = Failed e st' \<Longrightarrow> same_position st st'"
  unfolding gen_dict_crown_head_def
  by (auto split: gres.splits prod.splits if_splits
      dest!: v_data_position v_extra_position gen_assigment_position_done
        gen_assigment_position_failed
      simp: same_position_def)

lemma gen_list_crown_head_position_done: "gen_list_crown_head g cs st = Done r st' \<Longrightarrow> same_position st st'"
  unfolding gen_list_crown_head_def
  by (auto split: gres.splits prod.splits if_splits
      dest!: v_data_position v_extra_position gen_assigment_position_done
        gen_assigment_position_failed
      simp: same_position_def)

lemma gen_list_crown_head_position_failed: "gen_list_crown_head g cs st = Failed e st' \<Longrightarrow> same_position st st'"
  unfolding gen_list_crown_head_def
  by (auto split: gres.splits prod.splits if_splits
      dest!: v_data_position v_extra_position gen_assigment_position_done
        gen_assigment_position_failed
      simp: same_position_def)

lemma gen_dict_crown_tail_position_done: "gen_dict_crown_tail g m pol st = Done r st' \<Longrightarrow> same_position st st'"
  unfolding gen_dict_crown_tail_def
  by (auto split: gres.splits prod.splits if_splits
      dest!: v_data_position v_extra_position v_known_keys_position gen_add_self_position_done
        gen_add_self_position_failed
      simp: same_position_def)

lemma gen_dict_crown_tail_position_failed: "gen_dict_crown_tail g m pol st = Failed e st' \<Longrightarrow> same_position st st'"
  unfolding gen_dict_crown_tail_def
  by (auto split: gres.splits prod.splits if_splits
      dest!: v_data_position v_extra_position v_known_keys_position gen_add_self_position_done
        gen_add_self_position_failed
      simp: same_position_def)

lemma gen_list_crown_tail_position_done: "gen_list_crown_tail g cs pol st = Done r st' \<Longrightarrow> same_position st st'"
  unfolding gen_list_crown_tail_def
  by (auto split: gres.splits prod.splits if_splits
      dest!: v_data_position v_extra_position gen_add_self_position_done
        gen_add_self_position_failed
      simp: same_position_def)

lemma gen_list_crown_tail_position_failed: "gen_list_crown_tail g cs pol st = Failed e st' \<Longrightarrow> same_position st st'"
  unfolding gen_list_crown_tail_def
  by (auto split: gres.splits prod.splits if_splits
      dest!: v_data_position v_extra_position gen_add_self_position_done
        gen_add_self_position_failed
      simp: same_position_def)


lemma add_key_exit_enter_position:
  "same_position (add_key_enter c k st) st2 \<Longrightarrow>
   same_position st (add_key_exit (path st) (parent_path st) st2)"
  by (simp add: same_position_def add_key_enter_def add_key_exit_def)



lemma below_same: "same_position st st' \<Longrightarrow> below st st'"
  by (simp add: below_def same_position_def)

lemma same_below: "same_position a b \<Longrightarrow> below b c \<Longrightarrow> below a c"
  by (simp add: below_def same_position_def)

lemma below_same2: "below a b \<Longrightarrow> same_position b c \<Longrightarrow> below a c"
  by (simp add: below_def same_position_def)

lemma inside_child_below: "inside_child k st st' \<Longrightarrow> below st st'"
proof -
  assume "inside_child k st st'"
  then have "take (Suc (length (path st))) (path st') = path st @ [k]"
    by (simp add: inside_child_def)
  then have "take (length (path st)) (take (Suc (length (path st))) (path st')) = path st"
    by simp
  then show ?thesis by (simp add: below_def min_def)
qed

lemma below_enter_inside: "below (add_key_enter c k st) st' \<Longrightarrow> inside_child k st st'"
  by (simp add: below_def inside_child_def add_key_enter_def)



lemma fineD1: "fine st r \<Longrightarrow> r = Done v st' \<Longrightarrow> same_position st st'"
  by (simp add: fine_def)

lemma fineD2: "fine st r \<Longrightarrow> r = Failed e st' \<Longrightarrow> below st st'"
  by (simp add: fine_def)

lemma gen_position_mutual:
  "fine st (gen_root_crown_dispatch g c st)"
  "(\<forall>r st'. gen_crown_dispatch g c2 k st2 = Done r st' \<longrightarrow> same_position st2 st') \<and>
   (\<forall>e st'. gen_crown_dispatch g c2 k st2 = Failed e st' \<longrightarrow> inside_child k st2 st')"
  "fine st3 (gen_dict_crown g m pol st3)"
  "fine st4 (gen_list_crown g cs pol2 st4)"
  "fine st5 (gen_dict_items g m2 st5)"
  "fine st6 (gen_list_items g cs2 i st6)"
proof (induct g c st and g c2 k st2 and g m pol st3 and g cs pol2 st4 and g m2 st5 and g cs2 i st6
    rule: gen_root_crown_dispatch_gen_crown_dispatch_gen_dict_crown_gen_list_crown_gen_dict_items_gen_list_items.induct)
  case (1 g m pol st)
  then show ?case by (auto simp: fine_def split: gres.splits)
next
  case (2 g cs pol st)
  then show ?case by (auto simp: fine_def split: gres.splits)
next
  case (3 g f st)
  then show ?case by (simp add: fine_def same_position_refl)
next
  case (4 g st)
  then show ?case by (simp add: fine_def same_position_refl)
next
  case (5 g sub_crown k st)
  let ?s0 = "add_key_enter sub_crown k st"
  note ih = 5
  show ?case
  proof (cases "gen_root_crown_dispatch g sub_crown ?s0")
    case (Failed e st1)
    then have "below ?s0 st1" using ih by (simp add: fine_def)
    then have "inside_child k st st1" by (rule below_enter_inside)
    then show ?thesis using Failed by simp
  next
    case (Done bc st1)
    then have p1: "same_position ?s0 st1" using ih by (simp add: fine_def)
    obtain b code1 where bc: "bc = (b, code1)" by (cases bc)
    show ?thesis
    proof (cases b)
      case True
      have "same_position st (add_key_exit (path st) (parent_path st) st1)"
        using p1 by (rule add_key_exit_enter_position)
      then show ?thesis using Done bc True by simp
    next
      case False
      show ?thesis
      proof (cases sub_crown)
        case (InpFieldCrown f)
        show ?thesis
        proof (cases "gen_field_crown g f st1")
          case d: (Done c2 st2)
          then have "same_position st1 st2" by (rule gen_field_crown_position_done)
          with p1 have "same_position ?s0 st2" by (rule same_position_trans)
          then have "same_position st (add_key_exit (path st) (parent_path st) st2)"
            by (rule add_key_exit_enter_position)
          then show ?thesis using Done bc False InpFieldCrown d by simp
        next
          case f: (Failed e st2)
          then have "same_position st1 st2" by (rule gen_field_crown_position_failed)
          with p1 have "same_position ?s0 st2" by (rule same_position_trans)
          then have "inside_child k st st2" by (intro below_enter_inside below_same)
          then show ?thesis using Done bc False InpFieldCrown f by simp
        qed
      next
        case InpNoneCrown
        have "same_position st (add_key_exit (path st) (parent_path st) st1)"
          using p1 by (rule add_key_exit_enter_position)
        then show ?thesis using Done bc False InpNoneCrown by simp
      next
        case (InpDictCrown m pol)
        have "inside_child k st st1" using p1 by (intro below_enter_inside below_same)
        then show ?thesis using Done bc False InpDictCrown by simp
      next
        case (InpListCrown cs pol)
        have "inside_child k st st1" using p1 by (intro below_enter_inside below_same)
        then show ?thesis using Done bc False InpListCrown by simp
      qed
    qed
  qed
next
  case (6 g m pol st)
  show ?case
  proof (cases "gen_dict_crown_head g st")
    case (Failed e s1)
    then show ?thesis
      by (auto simp: fine_def dest!: gen_dict_crown_head_position_failed intro: below_same)
  next
    case h: (Done c1 s1)
    note p1 = gen_dict_crown_head_position_done[OF h]
    show ?thesis
    proof (cases "gen_dict_items g m s1")
      case (Failed e s2)
      then have "below s1 s2" using 6[OF h] by (simp add: fine_def)
      with p1 have "below st s2" by (rule same_below)
      then show ?thesis using h Failed by (simp add: fine_def)
    next
      case i: (Done c2 s2)
      then have "same_position s1 s2" using 6[OF h] by (simp add: fine_def)
      with p1 have p2: "same_position st s2" by (rule same_position_trans)
      show ?thesis
      proof (cases "gen_dict_crown_tail g m pol s2")
        case (Failed e s3)
        then have "same_position s2 s3" by (rule gen_dict_crown_tail_position_failed)
        with p2 have "same_position st s3" by (rule same_position_trans)
        then show ?thesis using h i Failed by (simp add: fine_def below_same)
      next
        case (Done c3 s3)
        then have "same_position s2 s3" by (rule gen_dict_crown_tail_position_done)
        with p2 have "same_position st s3" by (rule same_position_trans)
        then show ?thesis using h i Done by (simp add: fine_def)
      qed
    qed
  qed
next
  case (7 g cs pol st)
  show ?case
  proof (cases "gen_list_crown_head g cs st")
    case (Failed e s1)
    then show ?thesis
      by (auto simp: fine_def dest!: gen_list_crown_head_position_failed intro: below_same)
  next
    case h: (Done c1 s1)
    note p1 = gen_list_crown_head_position_done[OF h]
    show ?thesis
    proof (cases "gen_list_items g cs 0 s1")
      case (Failed e s2)
      then have "below s1 s2" using 7[OF h] by (simp add: fine_def)
      with p1 have "below st s2" by (rule same_below)
      then show ?thesis using h Failed by (simp add: fine_def)
    next
      case i: (Done c2 s2)
      then have "same_position s1 s2" using 7[OF h] by (simp add: fine_def)
      with p1 have p2: "same_position st s2" by (rule same_position_trans)
      show ?thesis
      proof (cases "gen_list_crown_tail g cs pol s2")
        case (Failed e s3)
        then have "same_position s2 s3" by (rule gen_list_crown_tail_position_failed)
        with p2 have "same_position st s3" by (rule same_position_trans)
        then show ?thesis using h i Failed by (simp add: fine_def below_same)
      next
        case (Done c3 s3)
        then have "same_position s2 s3" by (rule gen_list_crown_tail_position_done)
        with p2 have "same_position st s3" by (rule same_position_trans)
        then show ?thesis using h i Done by (simp add: fine_def)
      qed
    qed
  qed
next
  case (8 g st)
  then show ?case by (simp add: fine_def same_position_refl)
next
  case (9 g k c kcs st)
  show ?case
  proof (cases "gen_crown_dispatch g c (KStr k) st")
    case (Failed e s1)
    then have "inside_child (KStr k) st s1" using 9(1) by blast
    then have "below st s1" by (rule inside_child_below)
    then show ?thesis using Failed by (simp add: fine_def del: gen_crown_dispatch.simps)
  next
    case h: (Done c1 s1)
    then have p1: "same_position st s1" using 9(1) by blast
    have q: "fine s1 (gen_dict_items g kcs s1)" using 9(2)[OF h] .
    show ?thesis
    proof (cases "gen_dict_items g kcs s1")
      case (Failed e s2)
      then have "below s1 s2" using q by (simp add: fine_def)
      with p1 have "below st s2" by (rule same_below)
      then show ?thesis using h Failed by (simp add: fine_def del: gen_crown_dispatch.simps)
    next
      case (Done c2 s2)
      then have "same_position s1 s2" using q by (simp add: fine_def)
      with p1 have "same_position st s2" by (rule same_position_trans)
      then show ?thesis using h Done by (simp add: fine_def del: gen_crown_dispatch.simps)
    qed
  qed
next
  case (10 g i st)
  then show ?case by (simp add: fine_def same_position_refl)
next
  case (11 g c cs i st)
  show ?case
  proof (cases "gen_crown_dispatch g c (KInt (int i)) st")
    case (Failed e s1)
    then have "inside_child (KInt (int i)) st s1" using 11(1) by blast
    then have "below st s1" by (rule inside_child_below)
    then show ?thesis using Failed by (simp add: fine_def del: gen_crown_dispatch.simps)
  next
    case h: (Done c1 s1)
    then have p1: "same_position st s1" using 11(1) by blast
    have q: "fine s1 (gen_list_items g cs (Suc i) s1)" using 11(2)[OF h] .
    show ?thesis
    proof (cases "gen_list_items g cs (Suc i) s1")
      case (Failed e s2)
      then have "below s1 s2" using q by (simp add: fine_def)
      with p1 have "below st s2" by (rule same_below)
      then show ?thesis using h Failed by (simp add: fine_def del: gen_crown_dispatch.simps)
    next
      case (Done c2 s2)
      then have "same_position s1 s2" using q by (simp add: fine_def)
      with p1 have "same_position st s2" by (rule same_position_trans)
      then show ?thesis using h Done by (simp add: fine_def del: gen_crown_dispatch.simps)
    qed
  qed
qed

text \<open>
  C4 (as amended). The region \<^verbatim>\<open>with state.add_key(sub_crown, key)\<close> of \<^verbatim>\<open>_gen_crown_dispatch\<close>
  puts path, parent path and crown stack back to what they were whenever the generation of the
  child returns, through any of the \<^verbatim>\<open>return\<close> statements of the region. When the generation of
  the child raises, nothing is put back: the state keeps a path that runs through the child.
\<close>

theorem add_key_region_restores_unless_child_fails:
  "(gen_crown_dispatch g sub_crown k st = Done code st' \<longrightarrow>
      path st' = path st \<and> parent_path st' = parent_path st \<and> crown_stack st' = crown_stack st) \<and>
   (gen_crown_dispatch g sub_crown k st = Failed e st' \<longrightarrow>
      take (Suc (length (path st))) (path st') = path st @ [k] \<and> path st' \<noteq> path st)"
proof (intro conjI impI)
  assume d: "gen_crown_dispatch g sub_crown k st = Done code st'"
  then have "same_position st st'" using gen_position_mutual(2) by blast
  then show "path st' = path st" and "parent_path st' = parent_path st"
    and "crown_stack st' = crown_stack st"
    by (simp_all add: same_position_def)
next
  assume f: "gen_crown_dispatch g sub_crown k st = Failed e st'"
  then have i: "inside_child k st st'" using gen_position_mutual(2) by blast
  then show t: "take (Suc (length (path st))) (path st') = path st @ [k]"
    by (simp add: inside_child_def)
  show "path st' \<noteq> path st"
  proof
    assume "path st' = path st"
    with t show False by simp
  qed
qed

lemma gres_done_collapse: "is_Done r \<Longrightarrow> r = Done (gres_val r) (gres_state r)"
  by (cases r) auto

lemma gres_failed_collapse: "\<not> is_Done r \<Longrightarrow> r = Failed (gres_error r) (gres_state r)"
  by (cases r) auto

theorem add_key_region_witness:
  "is_Done (gen_crown_dispatch (example_gen TrailFirst)
              (InpDictCrown [(''z'', InpFieldCrown ''f2'')] ExtraForbid) (KStr ''y'')
              (create_state (example_gen TrailFirst))) \<and>
   same_position (create_state (example_gen TrailFirst))
     (gres_state (gen_crown_dispatch (example_gen TrailFirst)
              (InpDictCrown [(''z'', InpFieldCrown ''f2'')] ExtraForbid) (KStr ''y'')
              (create_state (example_gen TrailFirst)))) \<and>
   \<not> is_Done (gen_crown_dispatch example_gen_no_loader
              (InpDictCrown [(''z'', InpFieldCrown ''f2'')] ExtraForbid) (KStr ''y'')
              (create_state example_gen_no_loader)) \<and>
   path (gres_state (gen_crown_dispatch example_gen_no_loader
              (InpDictCrown [(''z'', InpFieldCrown ''f2'')] ExtraForbid) (KStr ''y'')
              (create_state example_gen_no_loader)))
     \<noteq> path (create_state example_gen_no_loader)"
proof -
  have d1: "is_Done (gen_crown_dispatch (example_gen TrailFirst)
              (InpDictCrown [(''z'', InpFieldCrown ''f2'')] ExtraForbid) (KStr ''y'')
              (create_state (example_gen TrailFirst)))"
    by code_simp
  have d2: "\<not> is_Done (gen_crown_dispatch example_gen_no_loader
              (InpDictCrown [(''z'', InpFieldCrown ''f2'')] ExtraForbid) (KStr ''y'')
              (create_state example_gen_no_loader))"
    by code_simp
  have t1: "path (gres_state (gen_crown_dispatch (example_gen TrailFirst)
              (InpDictCrown [(''z'', InpFieldCrown ''f2'')] ExtraForbid) (KStr ''y'')
              (create_state (example_gen TrailFirst)))) = path (create_state (example_gen TrailFirst)) \<and>
     parent_path (gres_state (gen_crown_dispatch (example_gen TrailFirst)
              (InpDictCrown [(''z'', InpFieldCrown ''f2'')] ExtraForbid) (KStr ''y'')
              (create_state (example_gen TrailFirst)))) = parent_path (create_state (example_gen TrailFirst)) \<and>
     crown_stack (gres_state (gen_crown_dispatch (example_gen TrailFirst)
              (InpDictCrown [(''z'', InpFieldCrown ''f2'')] ExtraForbid) (KStr ''y'')
              (create_state (example_gen TrailFirst)))) = crown_stack (create_state (example_gen TrailFirst))"
    by (rule add_key_region_restores_unless_child_fails[THEN conjunct1, rule_format,
          OF gres_done_collapse[OF d1]])
  have a: "same_position (create_state (example_gen TrailFirst))
     (gres_state (gen_crown_dispatch (example_gen TrailFirst)
              (InpDictCrown [(''z'', InpFieldCrown ''f2'')] ExtraForbid) (KStr ''y'')
              (create_state (example_gen TrailFirst))))"
    unfolding same_position_def by (rule t1)
  have b: "path (gres_state (gen_crown_dispatch example_gen_no_loader
              (InpDictCrown [(''z'', InpFieldCrown ''f2'')] ExtraForbid) (KStr ''y'')
              (create_state example_gen_no_loader)))
     \<noteq> path (create_state example_gen_no_loader)"
    by (rule add_key_region_restores_unless_child_fails[THEN conjunct2, rule_format,
          OF gres_failed_collapse[OF d2], THEN conjunct2])
  from d1 a d2 b show ?thesis by (intro conjI)
qed

theorem add_key_region_not_restored_counterexample:
  "gres_error (gen_crown_dispatch example_gen_no_loader (InpFieldCrown ''f2'') (KStr ''z'')
                 (create_state example_gen_no_loader)) = CompKeyError \<and>
   \<not> is_Done (gen_crown_dispatch example_gen_no_loader (InpFieldCrown ''f2'') (KStr ''z'')
                 (create_state example_gen_no_loader)) \<and>
   path (create_state example_gen_no_loader) = [] \<and>
   parent_path (create_state example_gen_no_loader) = None \<and>
   path (gres_state (gen_crown_dispatch example_gen_no_loader (InpFieldCrown ''f2'') (KStr ''z'')
                 (create_state example_gen_no_loader))) = [KStr ''z''] \<and>
   parent_path (gres_state (gen_crown_dispatch example_gen_no_loader (InpFieldCrown ''f2'')
                 (KStr ''z'') (create_state example_gen_no_loader))) = Some [] \<and>
   length (crown_stack (gres_state (gen_crown_dispatch example_gen_no_loader
                 (InpFieldCrown ''f2'') (KStr ''z'') (create_state example_gen_no_loader)))) = 2"
  by code_simp

section \<open>A root crown that is a leaf\<close>

text \<open>
  C10. When the root crown of the name layout is a field crown or a none crown,
  \<^verbatim>\<open>_gen_root_crown_dispatch\<close> reports that nothing was generated and \<^verbatim>\<open>__call__\<close> raises
  \<^verbatim>\<open>TypeError\<close>: no procedure is produced and no input is processed.
\<close>

theorem root_leaf_crown_fails_with_type_error:
  assumes "layout_crown g = InpFieldCrown f \<or> layout_crown g = InpNoneCrown"
  shows "call g = Failed CompTypeError (create_state g) \<and> run_extraction g data = None"
  using assms by (auto simp: call_def run_extraction_def)

theorem root_leaf_crown_witness:
  "layout_crown ((example_gen TrailAll)\<lparr>layout_crown := InpFieldCrown ''f1''\<rparr>) = InpFieldCrown ''f1'' \<and>
   call ((example_gen TrailAll)\<lparr>layout_crown := InpFieldCrown ''f1''\<rparr>)
     = Failed CompTypeError (create_state ((example_gen TrailAll)\<lparr>layout_crown := InpFieldCrown ''f1''\<rparr>)) \<and>
   run_extraction ((example_gen TrailAll)\<lparr>layout_crown := InpFieldCrown ''f1''\<rparr>)
     (PDict [(KStr ''x'', PInt 1)]) = None"
  using root_leaf_crown_fails_with_type_error
    [of "(example_gen TrailAll)\<lparr>layout_crown := InpFieldCrown ''f1''\<rparr>" "''f1''"
        "PDict [(KStr ''x'', PInt 1)]"]
  by simp

section \<open>A field whose key is absent\<close>

lemma eval_err_with_trail:
  "eval_err s x = Inr e \<Longrightarrow>
   eval_err s (with_trail mode x p) =
     Inr (if mode = TrailDisable then e else Exc (kind e) (p @ trail e))"
  by (cases mode; cases p; cases e)
     (auto simp: with_trail_def append_trail_def extend_trail_def)












section \<open>Strings at the position of a list crown\<close>

lemma exec_block_append:
  "exec_block L (a @ b) s =
     (case exec_block L a s of
        Normal s' \<Rightarrow> exec_block L b s'
      | Raised e s' \<Rightarrow> Raised e s'
      | Stuck \<Rightarrow> Stuck)"
  by (induction a arbitrary: s) (auto split: outcome.splits)

lemma exec_block_append_raised:
  "exec_block L a s = Raised e s' \<Longrightarrow> exec_block L (a @ b) s = Raised e s'"
  by (simp add: exec_block_append)

lemma get_path_idx_assigns:
  "get_path_idx p st = (i, st') \<Longrightarrow> map_of (path_to_suffix st') p = Some i"
  by (auto simp: get_path_idx_def map_add_Some_iff split: option.splits)

lemma get_path_idx_keeps:
  "map_of (path_to_suffix st) p = Some i \<Longrightarrow> get_path_idx q st = (j, st') \<Longrightarrow>
   map_of (path_to_suffix st') p = Some i"
  by (auto simp: get_path_idx_def map_add_Some_iff split: option.splits)

lemma with_path_suffix_keeps:
  "map_of (path_to_suffix st) p = Some i \<Longrightarrow> with_path_suffix b q st = (v, st') \<Longrightarrow>
   map_of (path_to_suffix st') p = Some i"
  by (auto simp: with_path_suffix_def split: if_splits prod.splits dest: get_path_idx_keeps)

lemma with_path_suffix_known:
  "map_of (path_to_suffix st) p = Some i \<Longrightarrow> p \<noteq> [] \<Longrightarrow>
   with_path_suffix b p st = (b (Some i), st)"
  by (simp add: with_path_suffix_def get_path_idx_def)

lemma with_path_suffix_assigns:
  "with_path_suffix b p st = (v, st') \<Longrightarrow> p \<noteq> [] \<Longrightarrow>
   \<exists>i. v = b (Some i) \<and> map_of (path_to_suffix st') p = Some i"
  by (auto simp: with_path_suffix_def split: prod.splits dest: get_path_idx_assigns)

lemma gen_assigment_keeps:
  "map_of (path_to_suffix st) p = Some i \<Longrightarrow>
   gen_assigment_from_parent_data g v ign st = Done r st' \<Longrightarrow>
   map_of (path_to_suffix st') p = Some i"
  unfolding gen_assigment_from_parent_data_def v_parent_data_def
  by (auto split: gres.splits prod.splits option.splits if_splits
      dest!: lookup_plan_state_done emit_error_for_state_done
      dest: with_path_suffix_keeps)

lemma gen_assigment_body:
  "gen_assigment_from_parent_data g v ign st = Done (body, hs) st' \<Longrightarrow>
   v_parent_data st = Done pd stp \<Longrightarrow>
   body = [Assign v (Subscript pd (last (path st)))]"
  unfolding gen_assigment_from_parent_data_def
  by (auto split: gres.splits prod.splits option.splits if_splits
      dest!: lookup_plan_state_done)


lemma v_data_root: "path st = [] \<Longrightarrow> v_data st = (VData None, st)"
  by (simp add: v_data_def with_path_suffix_def)

lemma head_strict_root:
  assumes "path st = []" and "strict_coercion g"
      and "gen_list_crown_head g cs st = Done code1 st1"
  shows "\<exists>rest. code1 = IfS (TypeIsStr (VData None))
                          [Raise (with_trail (debug_trail g) (TypeLoadErrorE PyList) [])] [] # rest"
  using assms unfolding gen_list_crown_head_def
  by (auto simp: v_data_root split: prod.splits if_splits)

lemma head_strict_nested:
  assumes ne: "path st \<noteq> []" and strict: "strict_coercion g"
      and head: "gen_list_crown_head g cs st = Done code1 st1"
      and pd: "v_parent_data (snd (v_data st)) = Done pd stp"
  shows "\<exists>hs rest. code1 =
           TryS [Assign (fst (v_data st)) (Subscript pd (last (path st)))] hs []
           # IfS (TypeIsStr (fst (v_data st)))
               [Raise (with_trail (debug_trail g) (TypeLoadErrorE PyList) (path st))] []
           # rest"
proof -
  obtain d st0 where vd: "v_data st = (d, st0)" by (cases "v_data st")
  have pos0: "same_position st st0" using vd by (rule v_data_position)
  then have path0: "path st0 = path st" by (simp add: same_position_def)
  obtain i where di: "d = VData (Some i)" and m0: "map_of (path_to_suffix st0) (path st) = Some i"
    using with_path_suffix_assigns[OF vd[unfolded v_data_def] ne] by blast
  obtain body hs sta where ga: "gen_assigment_from_parent_data g d False st0 = Done (body, hs) sta"
    using head ne unfolding gen_list_crown_head_def vd
    by (auto split: gres.splits prod.splits)
  have body: "body = [Assign d (Subscript pd (last (path st)))]"
    using gen_assigment_body[OF ga] pd vd path0 by simp
  have patha: "path sta = path st"
    using gen_assigment_position_done[OF ga] path0 by (simp add: same_position_def)
  have ma: "map_of (path_to_suffix sta) (path st) = Some i"
    using m0 ga by (rule gen_assigment_keeps)
  have vda: "v_data sta = (d, sta)"
    unfolding v_data_def patha di using ma ne by (rule with_path_suffix_known)
  show ?thesis
    using head ne strict unfolding gen_list_crown_head_def vd
    by (auto simp: ga body vda patha split: prod.splits if_splits)
qed

lemma exec_raise_type_load:
  "exec_block L (IfS (TypeIsStr d) [Raise (with_trail mode (TypeLoadErrorE t) p)] [] # rest) s =
     (case vals s d of
        None \<Rightarrow> Raised (builtin_exc PyNameError) s
      | Some x \<Rightarrow>
          (if is_str x
           then Raised (Exc (TypeLoadError t) (if mode = TrailDisable then [] else p)) s
           else exec_block L rest s))"
  by (auto simp: read_var_def eval_err_with_trail split: option.splits)

text \<open>
  C3. With \<^verbatim>\<open>strict_coercion\<close>, the statements of a list crown raise \<^verbatim>\<open>TypeLoadError(list)\<close> as soon
  as the value at the crown's position is a string: at the root the input itself, below the root
  the value just read from the parent container. Nothing that follows runs, so no child reads a
  character of the string.
\<close>

theorem strict_coercion_rejects_string:
  assumes gen: "gen_list_crown g cs pol st = Done code st'"
      and strict: "strict_coercion g"
  shows "(path st = [] \<longrightarrow> vals s (VData None) = Some (PStr str) \<longrightarrow>
            exec_block L code s = Raised (Exc (TypeLoadError PyList) []) s) \<and>
         (path st \<noteq> [] \<longrightarrow> v_parent_data (snd (v_data st)) = Done pd stp \<longrightarrow>
            vals s pd = Some c \<longrightarrow> py_getitem c (last (path st)) = Inr (PStr str) \<longrightarrow>
            exec_block L code s =
              Raised (Exc (TypeLoadError PyList) (if debug_trail g = TrailDisable then [] else path st))
                (set_val (fst (v_data st)) (PStr str) s))"
proof -
  obtain code1 st1 code23 where head: "gen_list_crown_head g cs st = Done code1 st1"
    and code: "code = code1 @ code23"
    using gen by (auto split: gres.splits)
  show ?thesis
  proof (intro conjI impI)
    assume root: "path st = []" and v: "vals s (VData None) = Some (PStr str)"
    obtain rest where c1: "code1 = IfS (TypeIsStr (VData None))
                          [Raise (with_trail (debug_trail g) (TypeLoadErrorE PyList) [])] [] # rest"
      using head_strict_root[OF root strict head] by blast
    have "exec_block L code1 s = Raised (Exc (TypeLoadError PyList) []) s"
      unfolding c1 exec_raise_type_load using v by simp
    then show "exec_block L code s = Raised (Exc (TypeLoadError PyList) []) s"
      unfolding code by (rule exec_block_append_raised)
  next
    assume ne: "path st \<noteq> []" and pd: "v_parent_data (snd (v_data st)) = Done pd stp"
      and v: "vals s pd = Some c" and item: "py_getitem c (last (path st)) = Inr (PStr str)"
    let ?d = "fst (v_data st)"
    obtain hs rest where c1: "code1 =
           TryS [Assign ?d (Subscript pd (last (path st)))] hs []
           # IfS (TypeIsStr ?d)
               [Raise (with_trail (debug_trail g) (TypeLoadErrorE PyList) (path st))] []
           # rest"
      using head_strict_nested[OF ne strict head pd] by blast
    have read: "exec L (TryS [Assign ?d (Subscript pd (last (path st)))] hs []) s
                  = Normal (set_val ?d (PStr str) s)"
      using v item by (simp add: read_var_def lift_kind_def)
    have "exec_block L code1 s =
            Raised (Exc (TypeLoadError PyList) (if debug_trail g = TrailDisable then [] else path st))
              (set_val ?d (PStr str) s)"
      unfolding c1 exec_block.simps(2)[of L "TryS _ _ _"] read outcome.case exec_raise_type_load
      by (simp add: set_val_def)
    then show "exec_block L code s =
            Raised (Exc (TypeLoadError PyList) (if debug_trail g = TrailDisable then [] else path st))
              (set_val ?d (PStr str) s)"
      unfolding code by (rule exec_block_append_raised)
  qed
qed

theorem strict_coercion_rejects_string_witness:
  "exec_block (loader_env (example_gen TrailAll))
     (gres_val (gen_list_crown (example_gen TrailAll) [InpFieldCrown ''f1'', InpFieldCrown ''f2'']
                  ExtraForbid (create_state (example_gen TrailAll))))
     (example_rstate (PStr ''ab'') PNone)
   = Raised (Exc (TypeLoadError PyList) []) (example_rstate (PStr ''ab'') PNone) \<and>
   exec_block (loader_env (example_gen TrailAll))
     (gres_val (gen_list_crown (example_gen TrailAll) [InpFieldCrown ''f1'', InpFieldCrown ''f2'']
                  ExtraForbid (example_state_list TrailAll)))
     (example_rstate (PDict [(KStr ''y'', PStr ''ab'')]) PNone)
   = Raised (Exc (TypeLoadError PyList)
               (if debug_trail (example_gen TrailAll) = TrailDisable then []
                else path (example_state_list TrailAll)))
       (set_val (fst (v_data (example_state_list TrailAll))) (PStr ''ab'')
          (example_rstate (PDict [(KStr ''y'', PStr ''ab'')]) PNone))"
proof -
  have strict: "strict_coercion (example_gen TrailAll)"
    by (simp add: example_gen_def)
  have d1: "is_Done (gen_list_crown (example_gen TrailAll) [InpFieldCrown ''f1'', InpFieldCrown ''f2'']
                  ExtraForbid (create_state (example_gen TrailAll)))"
    by code_simp
  have root: "path (create_state (example_gen TrailAll)) = []"
    by (simp add: create_state_def)
  have v1: "vals (example_rstate (PStr ''ab'') PNone) (VData None) = Some (PStr ''ab'')"
    by (simp add: example_rstate_def)
  have d2: "is_Done (gen_list_crown (example_gen TrailAll) [InpFieldCrown ''f1'', InpFieldCrown ''f2'']
                  ExtraForbid (example_state_list TrailAll))"
    by code_simp
  have ne: "path (example_state_list TrailAll) \<noteq> []"
    by (simp add: example_state_list_def add_key_enter_def)
  have pd0: "is_Done (v_parent_data (snd (v_data (example_state_list TrailAll))))"
    by code_simp
  have pd1: "gres_val (v_parent_data (snd (v_data (example_state_list TrailAll)))) = VData None"
    by code_simp
  have v2: "vals (example_rstate (PDict [(KStr ''y'', PStr ''ab'')]) PNone)
              (gres_val (v_parent_data (snd (v_data (example_state_list TrailAll)))))
            = Some (PDict [(KStr ''y'', PStr ''ab'')])"
    unfolding pd1 by (simp add: example_rstate_def)
  have item: "py_getitem (PDict [(KStr ''y'', PStr ''ab'')]) (last (path (example_state_list TrailAll)))
                = Inr (PStr ''ab'')"
    by (simp add: example_state_list_def add_key_enter_def)
  note t1 = strict_coercion_rejects_string[OF gres_done_collapse[OF d1] strict,
      THEN conjunct1, rule_format, OF root v1]
  note t2 = strict_coercion_rejects_string[OF gres_done_collapse[OF d2] strict,
      THEN conjunct2, rule_format, OF ne gres_done_collapse[OF pd0] v2 item]
  from t1 t2 show ?thesis by (rule conjI)
qed

section \<open>A container of the wrong type\<close>

lemma get_path_idx_checked:
  "get_path_idx p st = (i, st') \<Longrightarrow> checked_type_paths st' = checked_type_paths st"
  by (auto simp: get_path_idx_def split: option.splits)

lemma with_path_suffix_checked:
  "with_path_suffix b p st = (v, st') \<Longrightarrow> checked_type_paths st' = checked_type_paths st"
  by (auto simp: with_path_suffix_def split: if_splits prod.splits dest: get_path_idx_checked)

lemma v_parent_data_checked:
  "v_parent_data st = Done v st' \<Longrightarrow> checked_type_paths st' = checked_type_paths st"
  by (auto simp: v_parent_data_def split: option.splits prod.splits dest: with_path_suffix_checked)

lemma lookup_plan_classes:
  "lookup_plan st = Done (le, bte, btle, nfe) st' \<Longrightarrow>
   le = (case last (path st) of KStr k \<Rightarrow> CKeyError | KInt i \<Rightarrow> CIndexError) \<and>
   bte = (case last (path st) of KStr k \<Rightarrow> [CTypeError, CIndexError] | KInt i \<Rightarrow> [CTypeError, CKeyError]) \<and>
   btle = TypeLoadErrorE (container_type (last (path st)))"
  by (auto simp: lookup_plan_def list.case_eq_if split: if_splits key.splits option.splits)

lemma gen_assigment_handlers:
  assumes ga: "gen_assigment_from_parent_data g v ign st = Done (body, hs) st'"
      and pp: "parent_path st = Some q" and notyet: "q \<notin> checked_type_paths st"
  shows "\<exists>h more. hs =
           Handler [case last (path st) of KStr k \<Rightarrow> CKeyError | KInt i \<Rightarrow> CIndexError] [h]
           # Handler (case last (path st) of KStr k \<Rightarrow> [CTypeError, CIndexError]
                                           | KInt i \<Rightarrow> [CTypeError, CKeyError])
               [Raise (with_trail (debug_trail g) (TypeLoadErrorE (container_type (last (path st)))) q)]
           # more"
proof -
  obtain le bte btle nfe where lp: "lookup_plan st = Done (le, bte, btle, nfe) st"
    using ga unfolding gen_assigment_from_parent_data_def
    by (auto split: gres.splits prod.splits dest: lookup_plan_state_done)
  note cl = lookup_plan_classes[OF lp]
  obtain pd st1 where vp: "v_parent_data st = Done pd st1"
    using ga unfolding gen_assigment_from_parent_data_def lp gres.case prod.case
    by (auto split: gres.splits)
  have pos1: "parent_path st1 = Some q" "checked_type_paths st1 = checked_type_paths st"
    using v_parent_data_position_done[OF vp] v_parent_data_checked[OF vp] pp
    by (simp_all add: same_position_def)
  obtain h sta where em0: "(if ign then Done Pass st1
                  else emit_error_for_from_data_assigment (debug_trail g) nfe st1) = Done h sta"
    using ga unfolding gen_assigment_from_parent_data_def lp gres.case prod.case vp
    by (auto split: gres.splits)
  have "sta = st1"
    using em0 by (auto split: if_splits dest: emit_error_for_state_done)
  with em0 have em: "(if ign then Done Pass st1
                  else emit_error_for_from_data_assigment (debug_trail g) nfe st1) = Done h st1"
    by simp
  show ?thesis
    using ga notyet cl unfolding gen_assigment_from_parent_data_def lp gres.case prod.case vp em
    by (auto simp: pos1)
qed

lemma wrong_container_getitem:
  "wrong_container k c \<Longrightarrow>
   \<exists>ek. py_getitem c k = Inl ek \<and>
        \<not> exc_matches (Exc ek []) (case k of KStr a \<Rightarrow> CKeyError | KInt i \<Rightarrow> CIndexError) \<and>
        list_ex (exc_matches (Exc ek []))
          (case k of KStr a \<Rightarrow> [CTypeError, CIndexError] | KInt i \<Rightarrow> [CTypeError, CKeyError])"
  by (cases k; cases c) auto

text \<open>
  C1 (as amended). In every debug-trail mode, \<^verbatim>\<open>ALL\<close> included, the first read of a child of a
  container node whose value is not of the container's shape raises \<^verbatim>\<open>TypeLoadError\<close> for that
  shape at once, decorated with the path of the container unless the trail is disabled. The
  extraction ends there: no statement after the read runs, whatever it belongs to, and the
  errors collected so far stay in the list and are not raised.
\<close>

theorem wrong_container_type_raises_in_every_mode:
  assumes ga: "gen_assigment_from_parent_data g v ign st = Done (body, hs) st'"
      and pp: "parent_path st = Some q" and notyet: "q \<notin> checked_type_paths st"
      and pd: "v_parent_data st = Done pd stp"
      and data: "vals s pd = Some c"
      and wrong: "wrong_container (last (path st)) c"
  shows "exec_block L (TryS body hs els # rest) s =
           Raised (Exc (TypeLoadError (container_type (last (path st))))
                     (if debug_trail g = TrailDisable then [] else q)) s"
proof -
  let ?k = "last (path st)"
  obtain ek where ek: "py_getitem c ?k = Inl ek"
    and nolookup: "\<not> exc_matches (Exc ek []) (case ?k of KStr a \<Rightarrow> CKeyError | KInt i \<Rightarrow> CIndexError)"
    and bad: "list_ex (exc_matches (Exc ek []))
          (case ?k of KStr a \<Rightarrow> [CTypeError, CIndexError] | KInt i \<Rightarrow> [CTypeError, CKeyError])"
    using wrong_container_getitem[OF wrong] by blast
  have body: "body = [Assign v (Subscript pd ?k)]"
    using ga pd by (rule gen_assigment_body)
  obtain h more where hs: "hs =
           Handler [case ?k of KStr k \<Rightarrow> CKeyError | KInt i \<Rightarrow> CIndexError] [h]
           # Handler (case ?k of KStr k \<Rightarrow> [CTypeError, CIndexError]
                                | KInt i \<Rightarrow> [CTypeError, CKeyError])
               [Raise (with_trail (debug_trail g) (TypeLoadErrorE (container_type ?k)) q)]
           # more"
    using gen_assigment_handlers[OF ga pp notyet] by blast
  have rd: "exec_block L body s = Raised (Exc ek []) s"
    unfolding body using data ek by (simp add: read_var_def lift_kind_def builtin_exc_def)
  have ev: "\<And>s'. eval_err s' (with_trail (debug_trail g) (TypeLoadErrorE (container_type ?k)) q)
              = Inr (Exc (TypeLoadError (container_type ?k))
                       (if debug_trail g = TrailDisable then [] else q))"
    by (subst eval_err_with_trail[where e = "Exc (TypeLoadError (container_type ?k)) []"]) simp_all
  have "exec L (TryS body hs els) s =
          Raised (Exc (TypeLoadError (container_type ?k))
                    (if debug_trail g = TrailDisable then [] else q)) s"
    unfolding hs using rd nolookup bad by (simp add: ev)
  then show ?thesis by simp
qed

lemma gres_done_collapse_pair:
  "is_Done r \<Longrightarrow> r = Done (fst (gres_val r), snd (gres_val r)) (gres_state r)"
  by (cases r) auto

theorem wrong_container_type_witness:
  "exec_block (loader_env (example_gen TrailAll))
     (TryS (fst (gres_val (gen_assigment_from_parent_data (example_gen TrailAll) (VRawField ''f2'')
                             False (example_state_z TrailAll))))
           (snd (gres_val (gen_assigment_from_parent_data (example_gen TrailAll) (VRawField ''f2'')
                             False (example_state_z TrailAll))))
           []
      # [Assign (VField ''f1'') EmptyDict])
     (example_rstate (PDict [(KStr ''y'', PInt 5)]) (PInt 5))
   = Raised (Exc (TypeLoadError (container_type (last (path (example_state_z TrailAll)))))
               (if debug_trail (example_gen TrailAll) = TrailDisable then [] else [KStr ''y'']))
       (example_rstate (PDict [(KStr ''y'', PInt 5)]) (PInt 5))"
proof -
  have d: "is_Done (gen_assigment_from_parent_data (example_gen TrailAll) (VRawField ''f2'')
                      False (example_state_z TrailAll))"
    by code_simp
  have pp: "parent_path (example_state_z TrailAll) = Some [KStr ''y'']"
    by code_simp
  have notyet: "[KStr ''y''] \<notin> checked_type_paths (example_state_z TrailAll)"
    by code_simp
  have pd0: "is_Done (v_parent_data (example_state_z TrailAll))"
    by code_simp
  have pd1: "gres_val (v_parent_data (example_state_z TrailAll)) = VData (Some 1)"
    by code_simp
  have data: "vals (example_rstate (PDict [(KStr ''y'', PInt 5)]) (PInt 5))
                (gres_val (v_parent_data (example_state_z TrailAll))) = Some (PInt 5)"
    unfolding pd1 by (simp add: example_rstate_def)
  have wrong: "wrong_container (last (path (example_state_z TrailAll))) (PInt 5)"
    by code_simp
  show ?thesis
    by (rule wrong_container_type_raises_in_every_mode[OF gres_done_collapse_pair[OF d] pp notyet
          gres_done_collapse[OF pd0] data wrong])
qed

theorem wrong_container_type_not_grouped_counterexample:
  "is_Raised (the (run_extraction (example_gen TrailAll) (PDict [(KStr ''y'', PInt 5)]))) \<and>
   raised (the (run_extraction (example_gen TrailAll) (PDict [(KStr ''y'', PInt 5)])))
     = Exc (TypeLoadError PyDict) [KStr ''y''] \<and>
   errors (final (the (run_extraction (example_gen TrailAll) (PDict [(KStr ''y'', PInt 5)]))))
     = Some [Exc (NoRequiredFieldsError [KStr ''x'']) []] \<and>
   is_Raised (the (run_extraction example_gen_nested_first
                     (PDict [(KStr ''y'', PInt 5), (KStr ''x'', PInt 1)]))) \<and>
   raised (the (run_extraction example_gen_nested_first
                  (PDict [(KStr ''y'', PInt 5), (KStr ''x'', PInt 1)])))
     = Exc (TypeLoadError PyDict) [KStr ''y''] \<and>
   vals (final (the (run_extraction example_gen_nested_first
                       (PDict [(KStr ''y'', PInt 5), (KStr ''x'', PInt 1)])))) (VField ''f1'')
     = None"
  by code_simp

section \<open>Extra targets when nothing was collected\<close>

lemma exec_field_assigment_empty:
  assumes ga: "gen_field_assigment g (ToField f) t EmptyDict st = Done code st'"
      and ld: "loader_env g t = Some ld"
  shows "exec_block (loader_env g) (code @ rest) s =
           (case ld (PDict []) of
              Inr v \<Rightarrow> exec_block (loader_env g) rest (set_val (VField f) v s)
            | Inl e \<Rightarrow>
                (case report_loader_error (debug_trail g) e (path st) s of
                   Normal s' \<Rightarrow> exec_block (loader_env g) rest s'
                 | Raised e' s' \<Rightarrow> Raised e' s'
                 | Stuck \<Rightarrow> Stuck))"
proof -
  obtain l where l: "map_of (field_loaders g) t = Some l"
    using ga by (auto simp: gen_field_assigment_def split: option.splits)
  let ?pe = "case l of AsIsStub \<Rightarrow> EmptyDict | LoaderFn h \<Rightarrow> CallLoader t EmptyDict"
  have ev: "\<And>s'. eval_expr (loader_env g) s' ?pe = ld (PDict [])"
    using ld l by (cases l) (auto simp: loader_env_def)
  have tr: "\<And>m e s'. caught s' = Some e \<Longrightarrow>
              eval_err s' (with_trail m CaughtE (path st)) =
                Inr (if m = TrailDisable then e else Exc (kind e) (path st @ trail e))"
    by (rule eval_err_with_trail) simp
  show ?thesis
  proof (cases "debug_trail g")
    case TrailDisable
    then have "code = [Assign (VField f) ?pe]"
      using ga l by (auto simp: gen_field_assigment_def)
    then show ?thesis
      using TrailDisable by (simp add: ev report_loader_error_def split: sum.splits)
  next
    case TrailFirst
    then have "code = [TryS [Assign (VField f) ?pe]
                         [Handler [CException] [emit_error (debug_trail g) CaughtE st]] []]"
      using ga l by (auto simp: gen_field_assigment_def)
    then show ?thesis
      using TrailFirst
      by (simp add: ev report_loader_error_def emit_error_def tr split: sum.splits)
  next
    case TrailAll
    then have "code = [TryS [Assign (VField f) ?pe]
                         [Handler [CException] [emit_error (debug_trail g) CaughtE st]] []]"
      using ga l by (auto simp: gen_field_assigment_def)
    then show ?thesis
      using TrailAll
      by (auto simp: ev report_loader_error_def emit_error_def tr split: sum.splits option.splits)
  qed
qed

lemma gen_field_assigment_loader:
  "gen_field_assigment g a t x st = Done code st' \<Longrightarrow> \<exists>ld. loader_env g t = Some ld"
  by (auto simp: gen_field_assigment_def loader_env_def split: option.splits loader.splits)

lemma targets_not_collected_run:
  "gen_targets_not_collected g ids st = Done code st' \<Longrightarrow>
   st' = st \<and> exec_block (loader_env g) code s = saturate_with_empty g (path st) ids s"
proof (induction ids arbitrary: code s)
  case Nil
  then show ?case by simp
next
  case (Cons t ts)
  from Cons.prems obtain fld where fld: "name_to_field g t = Some fld"
    by (auto split: option.splits)
  show ?case
  proof (cases "is_required fld")
    case False
    with Cons.prems fld have "gen_targets_not_collected g ts st = Done code st'"
      by (auto split: gres.splits)
    from Cons.IH[OF this] show ?thesis using fld False by simp
  next
    case True
    with Cons.prems fld obtain c1 s1 c2 where
      ga: "gen_field_assigment g (ToField (fid fld)) t EmptyDict st = Done c1 s1"
      and rest: "gen_targets_not_collected g ts s1 = Done c2 st'"
      and code: "code = c1 @ c2"
      by (auto split: gres.splits)
    have s1: "s1 = st" using ga by (rule gen_field_assigment_state_done)
    obtain ld where ld: "loader_env g t = Some ld"
      using gen_field_assigment_loader[OF ga] by blast
    note ih = Cons.IH[OF rest[unfolded s1]]
    show ?thesis
      unfolding code exec_field_assigment_empty[OF ga ld]
      using ih fld True ld
      by (auto split: sum.splits outcome.splits)
  qed
qed

text \<open>
  C8. With \<^verbatim>\<open>extra_move = ExtraTargets(ids)\<close> and a root crown whose policy is not
  \<^verbatim>\<open>ExtraCollect\<close>, the statements emitted for the extra targets do what the spec says: the loader
  of every required target field is called on an empty mapping, with no read from the input and
  no handler for a failed lookup, and an optional target field gets nothing.
\<close>

theorem extra_targets_without_collected_overflow:
  assumes em: "layout_extra_move g = Some (ExtraTargets ids)"
      and pol: "crown_extra_policy (layout_crown g) = Some pol"
      and nc: "pol \<noteq> ExtraCollect"
      and gen: "gen_extra_targets_assigment g st = Done code st'"
  shows "exec_block (loader_env g) code s = saturate_with_empty g (path st) ids s"
proof -
  have "gen_targets_not_collected g ids st = Done code st'"
    using gen em pol nc by (simp add: gen_extra_targets_assigment_def)
  then show ?thesis using targets_not_collected_run by blast
qed

theorem extra_targets_without_collected_overflow_witness:
  "exec_block (loader_env (example_gen_targets TrailFirst))
     (gres_val (gen_extra_targets_assigment (example_gen_targets TrailFirst)
                  (create_state (example_gen_targets TrailFirst))))
     (example_rstate (PDict [(KStr ''x'', PInt 1)]) PNone)
   = saturate_with_empty (example_gen_targets TrailFirst)
       (path (create_state (example_gen_targets TrailFirst))) [''f2'', ''f3'']
       (example_rstate (PDict [(KStr ''x'', PInt 1)]) PNone) \<and>
   vals (final (saturate_with_empty (example_gen_targets TrailFirst)
       (path (create_state (example_gen_targets TrailFirst))) [''f2'', ''f3'']
       (example_rstate (PDict [(KStr ''x'', PInt 1)]) PNone))) (VField ''f2'')
   = Some (PList [PDict []]) \<and>
   vals (final (saturate_with_empty (example_gen_targets TrailFirst)
       (path (create_state (example_gen_targets TrailFirst))) [''f2'', ''f3'']
       (example_rstate (PDict [(KStr ''x'', PInt 1)]) PNone))) (VField ''f3'')
   = None"
proof -
  have em: "layout_extra_move (example_gen_targets TrailFirst) = Some (ExtraTargets [''f2'', ''f3''])"
    by (simp add: example_gen_targets_def)
  have pol: "crown_extra_policy (layout_crown (example_gen_targets TrailFirst)) = Some ExtraForbid"
    by (simp add: example_gen_targets_def)
  have nc: "ExtraForbid \<noteq> ExtraCollect"
    by simp
  have d: "is_Done (gen_extra_targets_assigment (example_gen_targets TrailFirst)
                      (create_state (example_gen_targets TrailFirst)))"
    by code_simp
  note t = extra_targets_without_collected_overflow[OF em pol nc gres_done_collapse[OF d],
      of "example_rstate (PDict [(KStr ''x'', PInt 1)]) PNone"]
  have a: "vals (final (saturate_with_empty (example_gen_targets TrailFirst)
       (path (create_state (example_gen_targets TrailFirst))) [''f2'', ''f3'']
       (example_rstate (PDict [(KStr ''x'', PInt 1)]) PNone))) (VField ''f2'')
   = Some (PList [PDict []])"
    by code_simp
  have b: "vals (final (saturate_with_empty (example_gen_targets TrailFirst)
       (path (create_state (example_gen_targets TrailFirst))) [''f2'', ''f3'']
       (example_rstate (PDict [(KStr ''x'', PInt 1)]) PNone))) (VField ''f3'')
   = None"
    by code_simp
  from t a b show ?thesis by (intro conjI)
qed

section \<open>Wrong-type checks are planned once\<close>

lemma type_checks_block_append:
  "type_checks_block (a @ b) = type_checks_block a @ type_checks_block b"
  by (induction a) auto

lemma data_name_ext:
  "suffix_ext st st' \<Longrightarrow> named st p \<Longrightarrow> data_name st' p = data_name st p"
  by (auto simp: suffix_ext_def named_def data_name_def)

lemma named_ext: "suffix_ext st st' \<Longrightarrow> named st p \<Longrightarrow> named st' p"
  by (auto simp: suffix_ext_def named_def)

lemma suffix_ext_refl: "suffix_ext st st"
  by (simp add: suffix_ext_def)

lemma suffix_ext_trans: "suffix_ext a b \<Longrightarrow> suffix_ext b c \<Longrightarrow> suffix_ext a c"
  by (simp add: suffix_ext_def)

lemma plans_append:
  assumes ab: "plans a c1 b" and bc: "plans b c2 c"
  shows "plans a (c1 @ c2) c"
  unfolding plans_def
proof (intro impI)
  assume wa: "suffix_wf a"
  from ab wa obtain ps1 where wb: "suffix_wf b" and e1: "suffix_ext a b"
    and d1: "distinct ps1" and n1: "set ps1 \<inter> checked_type_paths a = {}"
    and k1: "checked_type_paths b = checked_type_paths a \<union> set ps1"
    and nm1: "\<forall>p \<in> set ps1. named b p"
    and t1: "type_checks_block c1 = map (data_name b) ps1"
    unfolding plans_def by blast
  from bc wb obtain ps2 where wc: "suffix_wf c" and e2: "suffix_ext b c"
    and d2: "distinct ps2" and n2: "set ps2 \<inter> checked_type_paths b = {}"
    and k2: "checked_type_paths c = checked_type_paths b \<union> set ps2"
    and nm2: "\<forall>p \<in> set ps2. named c p"
    and t2: "type_checks_block c2 = map (data_name c) ps2"
    unfolding plans_def by blast
  have m1: "map (data_name b) ps1 = map (data_name c) ps1"
    using nm1 data_name_ext[OF e2] by (simp add: list_eq_iff_nth_eq)
  have "distinct (ps1 @ ps2)" using d1 d2 n2 k1 by auto
  moreover have "set (ps1 @ ps2) \<inter> checked_type_paths a = {}" using n1 n2 k1 by auto
  moreover have "checked_type_paths c = checked_type_paths a \<union> set (ps1 @ ps2)"
    using k1 k2 by auto
  moreover have "\<forall>p \<in> set (ps1 @ ps2). named c p" using nm1 nm2 named_ext[OF e2] by auto
  moreover have "type_checks_block (c1 @ c2) = map (data_name c) (ps1 @ ps2)"
    by (simp add: type_checks_block_append t1 t2 m1)
  ultimately show "suffix_wf c \<and> suffix_ext a c \<and>
        (\<exists>ps. distinct ps \<and> set ps \<inter> checked_type_paths a = {} \<and>
              checked_type_paths c = checked_type_paths a \<union> set ps \<and>
              (\<forall>p \<in> set ps. named c p) \<and>
              type_checks_block (c1 @ c2) = map (data_name c) ps)"
    using wc suffix_ext_trans[OF e1 e2] by blast
qed

lemma plans_quiet:
  "(suffix_wf st \<Longrightarrow> suffix_wf st') \<Longrightarrow> suffix_ext st st' \<Longrightarrow>
   checked_type_paths st' = checked_type_paths st \<Longrightarrow> type_checks_block code = [] \<Longrightarrow>
   plans st code st'"
  unfolding plans_def by (intro impI conjI exI[of _ "[]"]) simp_all

lemma plans_refl: "type_checks_block code = [] \<Longrightarrow> plans st code st"
  by (rule plans_quiet) (simp_all add: suffix_ext_refl)

lemma get_path_idx_plans: "get_path_idx p st = (i, st') \<Longrightarrow> plans st [] st'"
proof (rule plans_quiet)
  assume g: "get_path_idx p st = (i, st')"
  show "suffix_ext st st'"
    using g by (auto simp: get_path_idx_def suffix_ext_def map_add_Some_iff split: option.splits)
  show "checked_type_paths st' = checked_type_paths st"
    using g by (auto simp: get_path_idx_def split: option.splits)
  show "type_checks_block [] = []" by simp
  assume w: "suffix_wf st"
  show "suffix_wf st'"
  proof (cases "map_of (path_to_suffix st) p")
    case (Some j)
    then show ?thesis using g w by (simp add: get_path_idx_def)
  next
    case None
    then have st': "st' = st\<lparr>last_path_idx := last_path_idx st + 1,
              path_to_suffix := path_to_suffix st @ [(p, last_path_idx st + 1)]\<rparr>"
      using g by (auto simp: get_path_idx_def)
    have look: "\<And>q j. map_of (path_to_suffix st') q = Some j \<Longrightarrow>
                 map_of (path_to_suffix st) q = Some j \<or> (q = p \<and> j = last_path_idx st + 1)"
      unfolding st' by (auto simp: map_add_Some_iff split: if_splits)
    have bound: "\<And>q j. map_of (path_to_suffix st) q = Some j \<Longrightarrow> j \<le> last_path_idx st"
      using w by (simp add: suffix_wf_def)
    have inj: "\<And>q r j. map_of (path_to_suffix st) q = Some j \<Longrightarrow>
                 map_of (path_to_suffix st) r = Some j \<Longrightarrow> q = r"
      using w unfolding suffix_wf_def by blast
    show ?thesis
      unfolding suffix_wf_def
    proof (intro conjI allI impI)
      fix q r j
      assume "map_of (path_to_suffix st') q = Some j \<and> map_of (path_to_suffix st') r = Some j"
      then show "q = r"
        using look[of q j] look[of r j] bound[of q j] bound[of r j] inj[of q j r] by auto
    next
      fix q j
      assume "map_of (path_to_suffix st') q = Some j"
      then show "j \<le> last_path_idx st'"
        using look[of q j] bound[of q j] unfolding st' by auto
    qed
  qed
qed

lemma with_path_suffix_plans: "with_path_suffix b p st = (v, st') \<Longrightarrow> plans st [] st'"
  by (auto simp: with_path_suffix_def plans_refl split: if_splits prod.splits
      dest: get_path_idx_plans)

lemma v_data_plans: "v_data st = (v, st') \<Longrightarrow> plans st [] st'"
  unfolding v_data_def by (rule with_path_suffix_plans)

lemma v_extra_plans: "v_extra st = (v, st') \<Longrightarrow> plans st [] st'"
  unfolding v_extra_def by (rule with_path_suffix_plans)

lemma v_known_keys_plans: "v_known_keys st = (v, st') \<Longrightarrow> plans st [] st'"
  unfolding v_known_keys_def by (rule with_path_suffix_plans)


lemma emit_error_for_no_checks:
  "emit_error_for_from_data_assigment m x st = Done h st' \<Longrightarrow> type_checks h = []"
  by (auto simp: emit_error_for_from_data_assigment_def list.case_eq_if
      split: if_splits key.splits option.splits)

lemma lookup_plan_le:
  "lookup_plan st = Done (le, bte, btle, nfe) st' \<Longrightarrow>
   le \<noteq> CTypeError \<and> CTypeError \<in> set bte"
  by (auto simp: lookup_plan_def list.case_eq_if split: if_splits key.splits option.splits)

lemma gen_assigment_unfold:
  assumes ga: "gen_assigment_from_parent_data g v ign st = Done (body, hs) st'"
  shows "\<exists>pd st1 q.
           v_parent_data st = Done pd st1 \<and> parent_path st = Some q \<and>
           body = [Assign v (Subscript pd (last (path st)))] \<and>
           type_checks_handlers hs = [] \<and>
           (list_ex is_type_handler hs \<longleftrightarrow> q \<notin> checked_type_paths st1) \<and>
           st' = (if q \<notin> checked_type_paths st1
                  then st1\<lparr>checked_type_paths := insert q (checked_type_paths st1)\<rparr> else st1)"
proof -
  obtain le bte btle nfe where lp: "lookup_plan st = Done (le, bte, btle, nfe) st"
    using ga unfolding gen_assigment_from_parent_data_def
    by (auto split: gres.splits prod.splits dest: lookup_plan_state_done)
  note cl = lookup_plan_le[OF lp]
  obtain pd st1 where vp: "v_parent_data st = Done pd st1"
    using ga unfolding gen_assigment_from_parent_data_def lp gres.case prod.case
    by (auto split: gres.splits)
  obtain q where q: "parent_path st = Some q"
    using vp by (auto simp: v_parent_data_def split: option.splits)
  have q1: "parent_path st1 = Some q"
    using v_parent_data_position_done[OF vp] q by (simp add: same_position_def)
  obtain h sta where em0: "(if ign then Done Pass st1
                  else emit_error_for_from_data_assigment (debug_trail g) nfe st1) = Done h sta"
    using ga unfolding gen_assigment_from_parent_data_def lp gres.case prod.case vp
    by (auto split: gres.splits)
  have sta: "sta = st1"
    using em0 by (auto split: if_splits dest: emit_error_for_state_done)
  have hc: "type_checks h = []"
    using em0 by (auto split: if_splits dest: emit_error_for_no_checks)
  from em0 sta have em: "(if ign then Done Pass st1
                  else emit_error_for_from_data_assigment (debug_trail g) nfe st1) = Done h st1"
    by simp
  note ga' = ga[unfolded gen_assigment_from_parent_data_def lp gres.case prod.case vp em q1
      option.case]
  have body: "body = [Assign v (Subscript pd (last (path st)))]"
    using ga' by (auto split: if_splits)
  have st': "st' = (if q \<notin> checked_type_paths st1
                  then st1\<lparr>checked_type_paths := insert q (checked_type_paths st1)\<rparr> else st1)"
    using ga' by (auto split: if_splits)
  have hb: "type_checks_handlers hs = []"
    using ga' hc by (cases "debug_trail g") (auto split: if_splits)
  have th: "list_ex is_type_handler hs \<longleftrightarrow> q \<notin> checked_type_paths st1"
    using ga' cl by (cases "debug_trail g") (auto split: if_splits)
  from vp q body hb th st' show ?thesis by blast
qed

lemma v_parent_data_name:
  assumes vp: "v_parent_data st = Done pd st1" and q: "parent_path st = Some q"
  shows "plans st [] st1 \<and> pd = data_name st1 q \<and> named st1 q"
proof -
  have w: "with_path_suffix VData q st = (pd, st1)"
    using vp q by (auto simp: v_parent_data_def split: prod.splits)
  show ?thesis
  proof (cases "q = []")
    case True
    then show ?thesis
      using w with_path_suffix_plans[OF w]
      by (auto simp: with_path_suffix_def data_name_def named_def)
  next
    case False
    from with_path_suffix_assigns[OF w False] show ?thesis
      using False with_path_suffix_plans[OF w] by (auto simp: data_name_def named_def)
  qed
qed

lemma gen_assigment_plans:
  assumes ga: "gen_assigment_from_parent_data g v ign st = Done (body, hs) st'"
      and els: "type_checks_block els = []"
  shows "plans st [TryS body hs els] st'"
proof -
  from gen_assigment_unfold[OF ga] obtain pd st1 q where
    vp: "v_parent_data st = Done pd st1" and q: "parent_path st = Some q"
    and body: "body = [Assign v (Subscript pd (last (path st)))]"
    and hb: "type_checks_handlers hs = []"
    and th: "list_ex is_type_handler hs \<longleftrightarrow> q \<notin> checked_type_paths st1"
    and st': "st' = (if q \<notin> checked_type_paths st1
                  then st1\<lparr>checked_type_paths := insert q (checked_type_paths st1)\<rparr> else st1)"
    by blast
  from v_parent_data_name[OF vp q] have p1: "plans st [] st1"
    and pd: "pd = data_name st1 q" and nm: "named st1 q" by simp_all
  have p2: "plans st1 [TryS body hs els] st'"
  proof (cases "q \<in> checked_type_paths st1")
    case True
    then have "type_checks_block [TryS body hs els] = []"
      using hb els body th by simp
    moreover have "st' = st1" using st' True by simp
    ultimately show ?thesis by (simp add: plans_refl)
  next
    case False
    then have tc: "type_checks_block [TryS body hs els] = [pd]"
      using hb els body th by simp
    have s: "st' = st1\<lparr>checked_type_paths := insert q (checked_type_paths st1)\<rparr>"
      using st' False by simp
    show ?thesis
      unfolding plans_def
    proof (intro impI conjI exI[of _ "[q]"])
      assume "suffix_wf st1"
      then show "suffix_wf st'" unfolding s by (simp add: suffix_wf_def)
      show "suffix_ext st1 st'" unfolding s by (simp add: suffix_ext_def)
      show "distinct [q]" by simp
      show "set [q] \<inter> checked_type_paths st1 = {}" using False by simp
      show "checked_type_paths st' = checked_type_paths st1 \<union> set [q]" unfolding s by simp
      show "\<forall>p\<in>set [q]. named st' p" using nm unfolding s by (simp add: named_def)
      show "type_checks_block [TryS body hs els] = map (data_name st') [q]"
        unfolding tc pd s by (simp add: data_name_def)
    qed
  qed
  from plans_append[OF p1 p2] show ?thesis by simp
qed


lemma plans_same_checks:
  "plans a c b \<Longrightarrow> type_checks_block c' = type_checks_block c \<Longrightarrow> plans a c' b"
  by (simp add: plans_def)

lemma plans_seq:
  "plans a c1 b \<Longrightarrow> plans b c2 c \<Longrightarrow>
   type_checks_block code = type_checks_block c1 @ type_checks_block c2 \<Longrightarrow> plans a code c"
  using plans_append[of a c1 b c2 c] plans_same_checks[of a "c1 @ c2" c code]
  by (simp add: type_checks_block_append)

lemma v_parent_extra_plans: "v_parent_extra st = Done v st' \<Longrightarrow> plans st [] st'"
  by (auto simp: v_parent_extra_def split: option.splits prod.splits dest: with_path_suffix_plans)

lemma gen_field_assigment_no_checks:
  "gen_field_assigment g t f a st = Done code st' \<Longrightarrow> type_checks_block code = []"
  by (cases t)
     (auto simp: gen_field_assigment_def Let_def emit_error_def split: option.splits if_splits)

lemma get_field_plans: "get_field g f st = Done fld st' \<Longrightarrow> plans st [] st'"
  by (rule plans_quiet)
     (auto simp: get_field_def Let_def suffix_wf_def suffix_ext_def split: option.splits)

lemma gen_field_crown_plans:
  assumes "gen_field_crown g f st = Done code st'"
  shows "plans st code st'"
proof -
  from assms obtain fld st1 body hs st2 els where
    gf: "get_field g f st = Done fld st1"
    and ga: "gen_assigment_from_parent_data g (VRawField (fid fld)) (\<not> is_required fld) st1
               = Done (body, hs) st2"
    and fa: "gen_field_assigment g
               (if is_required fld then ToField (fid fld) else ToOptFields (fid fld))
               (fid fld) (Var (VRawField (fid fld))) st2 = Done els st'"
    and code: "code = [TryS body hs els]"
    unfolding gen_field_crown_def by (auto split: gres.splits prod.splits)
  have e: "type_checks_block els = []" using fa by (rule gen_field_assigment_no_checks)
  have s: "st' = st2" using fa by (rule gen_field_assigment_state_done)
  from plans_append[OF get_field_plans[OF gf] gen_assigment_plans[OF ga e]]
  show ?thesis unfolding code s by simp
qed

lemma gen_add_self_plans:
  assumes "gen_add_self_extra_to_parent_extra st = Done code st'"
  shows "plans st code st'"
proof (cases "path st = []")
  case True
  then show ?thesis using assms
    by (simp add: gen_add_self_extra_to_parent_extra_def plans_refl)
next
  case False
  with assms obtain pe st1 ex where a: "v_parent_extra st = Done pe st1"
    and b: "v_extra st1 = (ex, st')" and c: "code = [AssignItem pe (last (path st1)) (Var ex)]"
    unfolding gen_add_self_extra_to_parent_extra_def
    by (auto split: gres.splits prod.splits)
  show ?thesis
    by (rule plans_seq[OF v_parent_extra_plans[OF a] v_extra_plans[OF b]]) (simp add: c)
qed

lemma read_step_plans:
  assumes "(if path st \<noteq> []
            then (case v_data st of
                    (data, st0) \<Rightarrow>
                      (case gen_assigment_from_parent_data g data False st0 of
                         Failed e st1 \<Rightarrow> Failed e st1
                       | Done (body, handlers) st1 \<Rightarrow> Done [TryS body handlers []] st1))
            else Done [] st) = Done code1 st1"
  shows "plans st code1 st1"
proof (cases "path st = []")
  case True
  then show ?thesis using assms by (simp add: plans_refl)
next
  case False
  with assms obtain d st0 body hs where a: "v_data st = (d, st0)"
    and b: "gen_assigment_from_parent_data g d False st0 = Done (body, hs) st1"
    and c: "code1 = [TryS body hs []]"
    by (auto split: gres.splits prod.splits)
  have e: "type_checks_block [] = []" by simp
  show ?thesis
    by (rule plans_seq[OF v_data_plans[OF a] gen_assigment_plans[OF b e]]) (simp add: c)
qed

lemma gen_dict_crown_head_plans:
  assumes "gen_dict_crown_head g st = Done code st'"
  shows "plans st code st'"
proof -
  from assms obtain code1 st1 where
    r: "(if path st \<noteq> []
            then (case v_data st of
                    (data, st0) \<Rightarrow>
                      (case gen_assigment_from_parent_data g data False st0 of
                         Failed e st1 \<Rightarrow> Failed e st1
                       | Done (body, handlers) st1 \<Rightarrow> Done [TryS body handlers []] st1))
            else Done [] st) = Done code1 st1"
    and rest: "(if can_collect_extra g
           then (case v_extra st1 of (extra, st2) \<Rightarrow> Done (code1 @ [Assign extra EmptyDict]) st2)
           else Done code1 st1) = Done code st'"
    unfolding gen_dict_crown_head_def by (auto split: gres.splits)
  note p1 = read_step_plans[OF r]
  show ?thesis
  proof (cases "can_collect_extra g")
    case False
    then show ?thesis using rest p1 by simp
  next
    case True
    with rest obtain ex where a: "v_extra st1 = (ex, st')"
      and c: "code = code1 @ [Assign ex EmptyDict]"
      by (auto split: prod.splits)
    show ?thesis
      by (rule plans_seq[OF p1 v_extra_plans[OF a]]) (simp add: c type_checks_block_append)
  qed
qed

lemma gen_list_crown_head_plans:
  assumes "gen_list_crown_head g cs st = Done code st'"
  shows "plans st code st'"
proof -
  from assms obtain code1 st1 where
    r: "(if path st \<noteq> []
            then (case v_data st of
                    (data, st0) \<Rightarrow>
                      (case gen_assigment_from_parent_data g data False st0 of
                         Failed e st1 \<Rightarrow> Failed e st1
                       | Done (body, handlers) st1 \<Rightarrow> Done [TryS body handlers []] st1))
            else Done [] st) = Done code1 st1"
    and rest: "(case (if strict_coercion g
                 then (case v_data st1 of
                         (data, st2) \<Rightarrow>
                           ([IfS (TypeIsStr data)
                               [Raise (with_trail (debug_trail g) (TypeLoadErrorE PyList) (path st2))]
                               []],
                            st2))
                 else ([], st1)) of
             (code2, st2) \<Rightarrow>
               (if can_collect_extra g
                then (case v_extra st2 of
                        (extra, st3) \<Rightarrow>
                          Done (code1 @ code2
                                @ [Assign extra (Lit (PList (map list_literal_item cs)))]) st3)
                else Done (code1 @ code2) st2)) = Done code st'"
    unfolding gen_list_crown_head_def by (auto split: gres.splits)
  note p1 = read_step_plans[OF r]
  obtain code2 st2 where s2: "(if strict_coercion g
                 then (case v_data st1 of
                         (data, st2) \<Rightarrow>
                           ([IfS (TypeIsStr data)
                               [Raise (with_trail (debug_trail g) (TypeLoadErrorE PyList) (path st2))]
                               []],
                            st2))
                 else ([], st1)) = (code2, st2)"
    by (cases "(if strict_coercion g
                 then (case v_data st1 of
                         (data, st2) \<Rightarrow>
                           ([IfS (TypeIsStr data)
                               [Raise (with_trail (debug_trail g) (TypeLoadErrorE PyList) (path st2))]
                               []],
                            st2))
                 else ([], st1))")
  have p2: "plans st1 code2 st2"
  proof (cases "strict_coercion g")
    case False
    then show ?thesis using s2 by (auto simp: plans_refl)
  next
    case True
    with s2 obtain d where a: "v_data st1 = (d, st2)" and c: "type_checks_block code2 = []"
      by (auto split: prod.splits)
    show ?thesis by (rule plans_same_checks[OF v_data_plans[OF a]]) (simp add: c)
  qed
  note p12 = plans_append[OF p1 p2]
  show ?thesis
  proof (cases "can_collect_extra g")
    case False
    then show ?thesis using rest p12 unfolding s2 by simp
  next
    case True
    with rest obtain ex where a: "v_extra st2 = (ex, st')"
      and c: "code = code1 @ code2 @ [Assign ex (Lit (PList (map list_literal_item cs)))]"
      unfolding s2 by (auto split: prod.splits)
    show ?thesis
      by (rule plans_seq[OF p12 v_extra_plans[OF a]]) (simp add: c type_checks_block_append)
  qed
qed


lemma plans_nil_trans: "plans a [] b \<Longrightarrow> plans b [] c \<Longrightarrow> plans a [] c"
  using plans_append[of a "[]" b "[]" c] by simp

lemma plans_ctx: "plans st [] (st\<lparr>ctx_known_keys := x\<rparr>)"
  by (rule plans_quiet) (simp_all add: suffix_wf_def suffix_ext_def)

lemma emit_error_no_checks: "type_checks (emit_error m x st) = []"
  by (simp add: emit_error_def)

lemma gen_dict_extra_check_no_checks:
  "type_checks_block (gen_dict_extra_check m pol d e k st) = []"
  by (simp add: gen_dict_extra_check_def emit_error_no_checks)

lemma gen_list_len_check_no_checks:
  "type_checks_block (gen_list_len_check m pol n d st) = []"
  by (simp add: gen_list_len_check_def emit_error_no_checks)

lemmas v_data_plans' = v_data_plans[OF surjective_pairing]
lemmas v_extra_plans' = v_extra_plans[OF surjective_pairing]
lemmas v_known_keys_plans' = v_known_keys_plans[OF surjective_pairing]

lemma gen_dict_crown_tail_plans:
  assumes "gen_dict_crown_tail g m pol st = Done code st'"
  shows "plans st code st'"
proof -
  define r1 where "r1 = (if m = []
            then ([IfS (NotIsMapping (fst (v_data st)))
                     [Raise (with_trail (debug_trail g) (TypeLoadErrorE PyDict)
                        (path (snd (v_data st))))] []],
                  snd (v_data st))
            else ([], st))"
  define st2 where "st2 = (if pol = ExtraForbid \<or> pol = ExtraCollect
                 then (snd (v_known_keys (snd r1)))\<lparr>ctx_known_keys :=
                         AList.update (fst (v_known_keys (snd r1)))
                           (set (map (\<lambda>kc. PStr (fst kc)) m))
                           (ctx_known_keys (snd (v_known_keys (snd r1))))\<rparr>
                 else snd r1)"
  define st4 where "st4 = snd (v_extra (snd (v_data st2)))"
  define r5 where "r5 = (if pol = ExtraForbid \<or> pol = ExtraCollect
                          then (gen_dict_extra_check (debug_trail g) pol (fst (v_data st2))
                                  (fst (v_extra (snd (v_data st2)))) (fst (v_known_keys st4))
                                  (snd (v_known_keys st4)),
                                snd (v_known_keys st4))
                          else ([], st4))"
  define r6 where "r6 = (if can_collect_extra g
                         then gen_add_self_extra_to_parent_extra (snd r5)
                         else Done [] (snd r5))"
  have eq: "gen_dict_crown_tail g m pol st =
              (case r6 of Failed e s \<Rightarrow> Failed e s
                        | Done code3 s \<Rightarrow> Done (fst r1 @ fst r5 @ code3) s)"
    unfolding gen_dict_crown_tail_def r1_def st2_def st4_def r5_def r6_def case_prod_beta
    by (simp cong: if_cong gres.case_cong)
  from assms obtain code3 where f: "r6 = Done code3 st'"
    and code: "code = fst r1 @ fst r5 @ code3"
    unfolding eq by (auto split: gres.splits)
  have pa: "plans st [] (snd r1)" and ca: "type_checks_block (fst r1) = []"
    unfolding r1_def using v_data_plans'[of st] by (auto simp: plans_refl)
  have pb: "plans (snd r1) [] st2"
    unfolding st2_def using v_known_keys_plans'[of "snd r1"] plans_ctx
    by (auto intro: plans_nil_trans simp: plans_refl)
  have pc: "plans st2 [] st4"
    unfolding st4_def using v_data_plans'[of st2] v_extra_plans'[of "snd (v_data st2)"]
    by (blast intro: plans_nil_trans)
  have pe: "plans st4 [] (snd r5)" and ce: "type_checks_block (fst r5) = []"
    unfolding r5_def using v_known_keys_plans'[of st4]
    by (auto simp: plans_refl gen_dict_extra_check_no_checks)
  have pf: "plans (snd r5) code3 st'"
    using f unfolding r6_def
    by (auto split: if_splits dest: gen_add_self_plans simp: plans_refl)
  have "plans st [] (snd r5)"
    using pa pb pc pe by (blast intro: plans_nil_trans)
  then show ?thesis
    by (rule plans_seq[OF _ pf]) (simp add: code type_checks_block_append ca ce)
qed

lemma gen_list_crown_tail_plans:
  assumes "gen_list_crown_tail g cs pol st = Done code st'"
  shows "plans st code st'"
proof -
  define r1 where "r1 = (if cs = []
            then ([IfS (NotIsSequence (fst (v_data st)))
                     [Raise (with_trail (debug_trail g) (TypeLoadErrorE PyList)
                        (path (snd (v_data st))))] []],
                  snd (v_data st))
            else ([], st))"
  define st2 where "st2 = snd (v_data (snd r1))"
  define r6 where "r6 = (if can_collect_extra g
                         then gen_add_self_extra_to_parent_extra st2
                         else Done [] st2)"
  have eq: "gen_list_crown_tail g cs pol st =
              (case r6 of Failed e s \<Rightarrow> Failed e s
                        | Done code3 s \<Rightarrow>
                            Done (fst r1
                                  @ gen_list_len_check (debug_trail g) pol (length cs)
                                      (fst (v_data (snd r1))) st2
                                  @ code3) s)"
    unfolding gen_list_crown_tail_def r1_def st2_def r6_def case_prod_beta
    by (simp cong: if_cong gres.case_cong)
  from assms obtain code3 where f: "r6 = Done code3 st'"
    and code: "code = fst r1 @ gen_list_len_check (debug_trail g) pol (length cs)
                                      (fst (v_data (snd r1))) st2 @ code3"
    unfolding eq by (auto split: gres.splits)
  have pa: "plans st [] (snd r1)" and ca: "type_checks_block (fst r1) = []"
    unfolding r1_def using v_data_plans'[of st] by (auto simp: plans_refl)
  have pc: "plans (snd r1) [] st2"
    unfolding st2_def by (rule v_data_plans')
  have pf: "plans st2 code3 st'"
    using f unfolding r6_def
    by (auto split: if_splits dest: gen_add_self_plans simp: plans_refl)
  have "plans st [] st2"
    using pa pc by (blast intro: plans_nil_trans)
  then show ?thesis
    by (rule plans_seq[OF _ pf])
       (simp add: code type_checks_block_append ca gen_list_len_check_no_checks)
qed


lemma plans_enter: "plans st [] (add_key_enter c k st)"
  by (rule plans_quiet) (simp_all add: add_key_enter_def suffix_wf_def suffix_ext_def)

lemma plans_exit: "plans st [] (add_key_exit p pp st)"
  by (rule plans_quiet) (simp_all add: add_key_exit_def suffix_wf_def suffix_ext_def)

lemma plans_nil_left: "plans a [] b \<Longrightarrow> plans b c d \<Longrightarrow> plans a c d"
  using plans_append[of a "[]" b c d] by simp

lemma plans_nil_right: "plans a c b \<Longrightarrow> plans b [] d \<Longrightarrow> plans a c d"
  using plans_append[of a c b "[]" d] by simp

lemma gen_plans_mutual:
  "\<forall>r st'. gen_root_crown_dispatch g c st = Done r st' \<longrightarrow> plans st (snd r) st'"
  "\<forall>code st'. gen_crown_dispatch g c2 k st2 = Done code st' \<longrightarrow> plans st2 code st'"
  "\<forall>code st'. gen_dict_crown g m pol st3 = Done code st' \<longrightarrow> plans st3 code st'"
  "\<forall>code st'. gen_list_crown g cs pol2 st4 = Done code st' \<longrightarrow> plans st4 code st'"
  "\<forall>code st'. gen_dict_items g m2 st5 = Done code st' \<longrightarrow> plans st5 code st'"
  "\<forall>code st'. gen_list_items g cs2 i st6 = Done code st' \<longrightarrow> plans st6 code st'"
proof (induct g c st and g c2 k st2 and g m pol st3 and g cs pol2 st4 and g m2 st5 and g cs2 i st6
    rule: gen_root_crown_dispatch_gen_crown_dispatch_gen_dict_crown_gen_list_crown_gen_dict_items_gen_list_items.induct)
  case (1 g m pol st)
  then show ?case by (auto split: gres.splits)
next
  case (2 g cs pol st)
  then show ?case by (auto split: gres.splits)
next
  case (3 g f st)
  then show ?case by (simp add: plans_refl)
next
  case (4 g st)
  then show ?case by (simp add: plans_refl)
next
  case (5 g sub_crown k st)
  let ?s0 = "add_key_enter sub_crown k st"
  show ?case
  proof (intro allI impI)
    fix code st'
    assume a: "gen_crown_dispatch g sub_crown k st = Done code st'"
    then obtain b code1 st1 where r1:
      "gen_root_crown_dispatch g sub_crown ?s0 = Done (b, code1) st1"
      by (auto split: gres.splits)
    have p1: "plans ?s0 code1 st1" using 5 r1 by fastforce
    have inner: "\<exists>st2. plans ?s0 code st2 \<and> st' = add_key_exit (path st) (parent_path st) st2"
    proof (cases b)
      case True
      then have "code = code1" and "st' = add_key_exit (path st) (parent_path st) st1"
        using a r1 by simp_all
      then show ?thesis using p1 by blast
    next
      case False
      show ?thesis
      proof (cases sub_crown)
        case (InpFieldCrown f)
        then have c1: "code1 = []" and s1: "st1 = ?s0" using r1 by simp_all
        obtain st2 where gf: "gen_field_crown g f st1 = Done code st2"
          and e: "st' = add_key_exit (path st) (parent_path st) st2"
          using a r1 False InpFieldCrown by (auto split: gres.splits)
        have "plans ?s0 code st2" using gen_field_crown_plans[OF gf] s1 by simp
        then show ?thesis using e by blast
      next
        case InpNoneCrown
        then have "code = []" and "st' = add_key_exit (path st) (parent_path st) st1"
          and "code1 = []"
          using a r1 False by simp_all
        then show ?thesis using p1 by blast
      next
        case (InpDictCrown m pol)
        then show ?thesis using a r1 False by (auto split: gres.splits)
      next
        case (InpListCrown cs pol)
        then show ?thesis using a r1 False by (auto split: gres.splits)
      qed
    qed
    then obtain st2 where p12: "plans ?s0 code st2"
      and e: "st' = add_key_exit (path st) (parent_path st) st2" by blast
    show "plans st code st'"
      unfolding e using plans_nil_left[OF plans_enter p12] plans_exit
      by (rule plans_nil_right)
  qed
next
  case (6 g m pol st)
  show ?case
  proof (intro allI impI)
    fix code st'
    assume a: "gen_dict_crown g m pol st = Done code st'"
    then obtain c1 s1 c2 s2 c3 where h: "gen_dict_crown_head g st = Done c1 s1"
      and i: "gen_dict_items g m s1 = Done c2 s2"
      and t: "gen_dict_crown_tail g m pol s2 = Done c3 st'"
      and code: "code = c1 @ c2 @ c3"
      by (auto split: gres.splits)
    have "plans s1 c2 s2" using 6[OF h] i by blast
    from plans_append[OF gen_dict_crown_head_plans[OF h]
        plans_append[OF this gen_dict_crown_tail_plans[OF t]]]
    show "plans st code st'" unfolding code .
  qed
next
  case (7 g cs pol st)
  show ?case
  proof (intro allI impI)
    fix code st'
    assume a: "gen_list_crown g cs pol st = Done code st'"
    then obtain c1 s1 c2 s2 c3 where h: "gen_list_crown_head g cs st = Done c1 s1"
      and i: "gen_list_items g cs 0 s1 = Done c2 s2"
      and t: "gen_list_crown_tail g cs pol s2 = Done c3 st'"
      and code: "code = c1 @ c2 @ c3"
      by (auto split: gres.splits)
    have "plans s1 c2 s2" using 7[OF h] i by blast
    from plans_append[OF gen_list_crown_head_plans[OF h]
        plans_append[OF this gen_list_crown_tail_plans[OF t]]]
    show "plans st code st'" unfolding code .
  qed
next
  case (8 g st)
  then show ?case by (simp add: plans_refl)
next
  case (9 g k c kcs st)
  show ?case
  proof (intro allI impI)
    fix code st'
    assume a: "gen_dict_items g ((k, c) # kcs) st = Done code st'"
    then obtain c1 s1 c2 where h: "gen_crown_dispatch g c (KStr k) st = Done c1 s1"
      and i: "gen_dict_items g kcs s1 = Done c2 st'" and code: "code = c1 @ c2"
      by (auto simp del: gen_crown_dispatch.simps split: gres.splits)
    have "plans st c1 s1" using 9(1) h by blast
    moreover have "plans s1 c2 st'" using 9(2)[OF h] i by blast
    ultimately show "plans st code st'" unfolding code by (rule plans_append)
  qed
next
  case (10 g i st)
  then show ?case by (simp add: plans_refl)
next
  case (11 g c cs i st)
  show ?case
  proof (intro allI impI)
    fix code st'
    assume a: "gen_list_items g (c # cs) i st = Done code st'"
    then obtain c1 s1 c2 where h: "gen_crown_dispatch g c (KInt (int i)) st = Done c1 s1"
      and j: "gen_list_items g cs (Suc i) s1 = Done c2 st'" and code: "code = c1 @ c2"
      by (auto simp del: gen_crown_dispatch.simps split: gres.splits)
    have "plans st c1 s1" using 11(1) h by blast
    moreover have "plans s1 c2 st'" using 11(2)[OF h] j by blast
    ultimately show "plans st code st'" unfolding code by (rule plans_append)
  qed
qed


lemma gen_targets_collected_plans:
  "gen_targets_collected g ids st = Done code st' \<Longrightarrow> plans st code st'"
proof (induction ids arbitrary: st code)
  case Nil
  then show ?case by (simp add: plans_refl)
next
  case (Cons t ts)
  from Cons.prems obtain fld :: input_field and ex st1 c1 st2 c2 where
    a: "v_extra st = (ex, st1)"
    and b: "gen_field_assigment g (ToField (fid fld)) t (Var ex) st1 = Done c1 st2"
    and c: "gen_targets_collected g ts st2 = Done c2 st'" and code: "code = c1 @ c2"
    by (auto split: option.splits prod.splits gres.splits)
  have s: "st2 = st1" using b by (rule gen_field_assigment_state_done)
  have n: "type_checks_block c1 = []" using b by (rule gen_field_assigment_no_checks)
  have "plans st c1 st2"
    unfolding s by (rule plans_same_checks[OF v_extra_plans[OF a]]) (simp add: n)
  from plans_append[OF this Cons.IH[OF c]] show ?case unfolding code .
qed

lemma gen_targets_not_collected_plans:
  "gen_targets_not_collected g ids st = Done code st' \<Longrightarrow> plans st code st'"
proof (induction ids arbitrary: st code)
  case Nil
  then show ?case by (simp add: plans_refl)
next
  case (Cons t ts)
  from Cons.prems obtain fld :: input_field and c1 st1 c2 where
    b: "(if is_required fld
                 then gen_field_assigment g (ToField (fid fld)) t EmptyDict st
                 else Done [] st) = Done c1 st1"
    and c: "gen_targets_not_collected g ts st1 = Done c2 st'" and code: "code = c1 @ c2"
    by (auto split: option.splits gres.splits)
  have s: "st1 = st" and n: "type_checks_block c1 = []"
    using b
    by (auto split: if_splits dest: gen_field_assigment_state_done gen_field_assigment_no_checks)
  have "plans st c1 st1" unfolding s by (rule plans_refl[OF n])
  from plans_append[OF this Cons.IH[OF c]] show ?case unfolding code .
qed

lemma gen_extra_targets_plans:
  "gen_extra_targets_assigment g st = Done code st' \<Longrightarrow> plans st code st'"
  unfolding gen_extra_targets_assigment_def
  by (auto split: option.splits extra_move.splits if_splits
      dest: gen_targets_collected_plans gen_targets_not_collected_plans simp: plans_refl)

lemma suffix_wf_create: "suffix_wf (create_state g)"
  by (simp add: suffix_wf_def create_state_def)

lemma data_name_inj:
  "suffix_wf st \<Longrightarrow> inj_on (data_name st) {p. named st p}"
  unfolding inj_on_def suffix_wf_def named_def data_name_def
  by (auto split: if_splits)

lemma distinct_count_le_one: "distinct xs \<Longrightarrow> count_list xs v \<le> 1"
  by (induction xs) (auto simp: count_list_0_iff)

text \<open>
  C9. In the code of one compilation no container has two wrong-type checks: every variable
  occurs at most once among the planned checks, the planned checks are those of the paths in
  \<^verbatim>\<open>checked_type_paths\<close>, and two named paths never share a variable. So the check of a path is
  emitted at most once, however many children read from that path.
\<close>

theorem type_check_planned_at_most_once:
  assumes "call g = Done code st"
  shows "count_list (type_checks_block code) v \<le> 1 \<and>
         set (type_checks_block code) = data_name st ` checked_type_paths st \<and>
         inj_on (data_name st) {p. named st p} \<and>
         checked_type_paths st \<subseteq> {p. named st p}"
proof -
  from assms obtain code1 st1 code2 where
    r: "gen_root_crown_dispatch g (layout_crown g) (create_state g) = Done (True, code1) st1"
    and t: "gen_extra_targets_assigment g st1 = Done code2 st"
    and tc: "type_checks_block code = type_checks_block (code1 @ code2)"
    unfolding call_def
    by (auto split: gres.splits if_splits simp: type_checks_block_append)
  have p1: "plans (create_state g) code1 st1"
    using gen_plans_mutual(1) r by fastforce
  from plans_append[OF p1 gen_extra_targets_plans[OF t]] suffix_wf_create
  obtain ps where w: "suffix_wf st" and d: "distinct ps"
    and k: "checked_type_paths st = checked_type_paths (create_state g) \<union> set ps"
    and nm: "\<forall>p \<in> set ps. named st p"
    and m: "type_checks_block (code1 @ code2) = map (data_name st) ps"
    unfolding plans_def by blast
  have k': "checked_type_paths st = set ps"
    using k by (simp add: create_state_def)
  note inj = data_name_inj[OF w]
  have sub: "set ps \<subseteq> {p. named st p}" using nm by blast
  have "distinct (type_checks_block code)"
    unfolding tc m using d inj sub by (simp add: distinct_map inj_on_subset)
  then have "count_list (type_checks_block code) v \<le> 1"
    by (rule distinct_count_le_one)
  moreover have "set (type_checks_block code) = data_name st ` checked_type_paths st"
    unfolding tc m k' by simp
  ultimately show ?thesis using inj sub k' by simp
qed

theorem type_check_planned_at_most_once_witness:
  "count_list (type_checks_block (gres_val (call (example_gen TrailAll)))) (VData (Some 1)) \<le> 1 \<and>
   set (type_checks_block (gres_val (call (example_gen TrailAll))))
     = data_name (gres_state (call (example_gen TrailAll)))
         ` checked_type_paths (gres_state (call (example_gen TrailAll))) \<and>
   inj_on (data_name (gres_state (call (example_gen TrailAll))))
     {p. named (gres_state (call (example_gen TrailAll))) p} \<and>
   checked_type_paths (gres_state (call (example_gen TrailAll)))
     \<subseteq> {p. named (gres_state (call (example_gen TrailAll))) p}"
proof -
  have d: "is_Done (call (example_gen TrailAll))"
    by code_simp
  show ?thesis
    by (rule type_check_planned_at_most_once[OF gres_done_collapse[OF d]])
qed

section \<open>The unknown keys of a dict crown\<close>

lemma exec_emit_error:
  "eval_err s x = Inr (Exc k []) \<Longrightarrow> exec L (emit_error mode x st) s = report mode k (path st) s"
  by (cases mode)
     (auto simp: emit_error_def report_def eval_err_with_trail split: option.splits)

lemma emit_error_path: "path a = path b \<Longrightarrow> emit_error m x a = emit_error m x b"
  by (simp add: emit_error_def)

lemma with_path_suffix_fix:
  assumes "with_path_suffix b p st = (v, st')"
  shows "named st' p" and "v = b (suffix_at st' p)"
    and "ctx_known_keys st' = ctx_known_keys st" and "path st' = path st"
    and "parent_path st' = parent_path st"
  using assms
  by (auto simp: with_path_suffix_def get_path_idx_def named_def suffix_at_def map_add_def
      split: if_splits option.splits)

lemma with_path_suffix_named:
  assumes "named st p"
  shows "with_path_suffix b p st = (b (suffix_at st p), st)"
  using assms
  by (auto simp: with_path_suffix_def get_path_idx_def named_def suffix_at_def
      split: if_splits option.splits)

lemma with_path_suffix_other:
  assumes "with_path_suffix b q st = (v, st')" and "named st p"
  shows "named st' p" and "suffix_at st' p = suffix_at st p"
  using assms
  by (auto simp: with_path_suffix_def get_path_idx_def map_add_Some_iff named_def suffix_at_def
      split: if_splits option.splits)

lemma names_at:
  assumes "named st (path st)"
  shows "v_data st = (VData (suffix_at st (path st)), st)"
    and "v_known_keys st = (VKnownKeys (suffix_at st (path st)), st)"
    and "v_extra st = (VExtra (suffix_at st (path st)), st)"
  using assms by (simp_all add: v_data_def v_known_keys_def v_extra_def with_path_suffix_named)

lemma gen_add_self_names:
  assumes ga: "gen_add_self_extra_to_parent_extra st = Done code st'"
      and nm: "named st (path st)"
  shows "named st' (path st) \<and> suffix_at st' (path st) = suffix_at st (path st) \<and>
         path st' = path st \<and> ctx_known_keys st' = ctx_known_keys st \<and>
         (code = [] \<or> (\<exists>pe. code = [AssignItem pe (last (path st)) (Var (VExtra (suffix_at st (path st))))]))"
proof (cases "path st = []")
  case True
  then show ?thesis using ga nm by (simp add: gen_add_self_extra_to_parent_extra_def)
next
  case False
  obtain pp where pp: "parent_path st = Some pp"
    using ga False
    by (auto simp: gen_add_self_extra_to_parent_extra_def v_parent_extra_def split: option.splits)
  obtain pe sa where w: "with_path_suffix VExtra pp st = (pe, sa)"
    by (cases "with_path_suffix VExtra pp st")
  note f = with_path_suffix_fix[OF w] and o = with_path_suffix_other[OF w nm]
  have nma: "named sa (path sa)" using o f by simp
  show ?thesis
    using ga False o f
    by (auto simp: gen_add_self_extra_to_parent_extra_def v_parent_extra_def pp w
        names_at[OF nma])
qed









section \<open>The length of a list crown\<close>

lemma gen_list_len_check_path:
  "path a = path b \<Longrightarrow> gen_list_len_check m pol n d a = gen_list_len_check m pol n d b"
  by (simp add: gen_list_len_check_def emit_error_path[of a b])

lemma list_tail_shape:
  assumes tl: "gen_list_crown_tail g cs pol st = Done code st'"
  shows "\<exists>code3. code =
            (if cs = [] then [IfS (NotIsSequence (fst (v_data st')))
                              [Raise (with_trail (debug_trail g) (TypeLoadErrorE PyList) (path st))] []]
             else [])
            @ gen_list_len_check (debug_trail g) pol (length cs) (fst (v_data st')) st
            @ code3
          \<and> (code3 = [] \<or> (\<exists>pe. code3 = [AssignItem pe (last (path st)) (Var (fst (v_extra st')))]))"
proof -
  let ?p = "path st"
  define r1 where "r1 = (if cs = []
            then ([IfS (NotIsSequence (fst (v_data st)))
                     [Raise (with_trail (debug_trail g) (TypeLoadErrorE PyList)
                        (path (snd (v_data st))))] []],
                  snd (v_data st))
            else ([], st))"
  define st2 where "st2 = snd (v_data (snd r1))"
  define r6 where "r6 = (if can_collect_extra g
                         then gen_add_self_extra_to_parent_extra st2
                         else Done [] st2)"
  have eq: "gen_list_crown_tail g cs pol st =
              (case r6 of Failed e s \<Rightarrow> Failed e s
                        | Done code3 s \<Rightarrow>
                            Done (fst r1
                                  @ gen_list_len_check (debug_trail g) pol (length cs)
                                      (fst (v_data (snd r1))) st2
                                  @ code3) s)"
    unfolding gen_list_crown_tail_def r1_def st2_def r6_def case_prod_beta
    by (simp cong: if_cong gres.case_cong)
  from tl obtain code3 where f: "r6 = Done code3 st'"
    and code: "code = fst r1 @ gen_list_len_check (debug_trail g) pol (length cs)
                                      (fst (v_data (snd r1))) st2 @ code3"
    unfolding eq by (auto split: gres.splits)
  have p1: "path (snd r1) = ?p"
    unfolding r1_def using with_path_suffix_fix(4)[OF surjective_pairing, of VData ?p st]
    by (simp add: v_data_def)
  have n1: "cs = [] \<Longrightarrow> named (snd r1) ?p \<and> fst (v_data st) = VData (suffix_at (snd r1) ?p)"
    unfolding r1_def using with_path_suffix_fix(1,2)[OF surjective_pairing, of VData ?p st]
    by (simp add: v_data_def)
  have wd: "with_path_suffix VData ?p (snd r1) = (fst (v_data (snd r1)), st2)"
    unfolding st2_def v_data_def p1 by simp
  note fd = with_path_suffix_fix[OF wd]
  have k1: "cs = [] \<Longrightarrow> suffix_at st2 ?p = suffix_at (snd r1) ?p"
    using with_path_suffix_other(2)[OF wd] n1 by simp
  have p2: "path st2 = ?p" using fd(4) p1 by simp
  have n2: "named st2 ?p" by (rule fd(1))
  have nm2: "named st2 (path st2)" using n2 p2 by simp
  have dd: "fst (v_data (snd r1)) = VData (suffix_at st2 ?p)" by (rule fd(2))
  have fin: "named st' ?p \<and> suffix_at st' ?p = suffix_at st2 ?p \<and>
         path st' = ?p \<and> ctx_known_keys st' = ctx_known_keys st2 \<and>
         (code3 = [] \<or> (\<exists>pe. code3 = [AssignItem pe (last ?p) (Var (VExtra (suffix_at st2 ?p)))]))"
  proof (cases "can_collect_extra g")
    case True
    then have "gen_add_self_extra_to_parent_extra st2 = Done code3 st'"
      using f unfolding r6_def by simp
    from gen_add_self_names[OF this nm2] show ?thesis unfolding p2 .
  next
    case False
    then have "st' = st2" and "code3 = []"
      using f unfolding r6_def by simp_all
    then show ?thesis using n2 p2 by simp
  qed
  have nm': "named st' (path st')" using fin by simp
  have at': "v_data st' = (VData (suffix_at st2 ?p), st')"
            "v_extra st' = (VExtra (suffix_at st2 ?p), st')"
    using names_at[OF nm'] fin by simp_all
  have c1: "fst r1 = (if cs = [] then [IfS (NotIsSequence (VData (suffix_at st2 ?p)))
                              [Raise (with_trail (debug_trail g) (TypeLoadErrorE PyList) ?p)] []]
             else [])"
  proof (cases "cs = []")
    case True
    have a: "fst r1 = [IfS (NotIsSequence (fst (v_data st)))
                     [Raise (with_trail (debug_trail g) (TypeLoadErrorE PyList)
                        (path (snd r1)))] []]"
      using True by (simp add: r1_def)
    have b: "fst (v_data st) = VData (suffix_at st2 ?p)"
      using n1[OF True] k1[OF True] by simp
    show ?thesis unfolding a b p1 using True by simp
  next
    case False
    then show ?thesis by (simp add: r1_def)
  qed
  have c3: "code3 = [] \<or> (\<exists>pe. code3 = [AssignItem pe (last ?p) (Var (VExtra (suffix_at st2 ?p)))])"
    using fin by blast
  show ?thesis
    unfolding at' fst_conv
    apply (rule exI[of _ code3])
    apply (intro conjI)
     apply (simp only: code c1 dd gen_list_len_check_path[OF p2])
    apply (rule c3)
    done
qed

lemma gen_list_items_path:
  "gen_list_items g cs i st = Done code st' \<Longrightarrow> path st' = path st"
  using gen_position_mutual(6)[of st g cs i] by (simp add: fine_def same_position_def)

lemma exec_list_len_check:
  assumes "vals s data = Some (PList xs)"
  shows "exec_block L (gen_list_len_check mode pol n data st) s =
           (if length xs < n
            then report mode (NoRequiredItemsError n) (path st) s
            else if pol = ExtraForbid \<and> n < length xs
            then report mode (ExtraItemsError n) (path st) s
            else Normal s)"
proof -
  have len: "len_of s data = Inr (length xs)"
    using assms by (simp add: len_of_def read_var_def lift_kind_def)
  have e1: "exec L (emit_error mode (NoRequiredItemsErrorE n) st) s
              = report mode (NoRequiredItemsError n) (path st) s"
    by (rule exec_emit_error) simp
  have e2: "exec L (emit_error mode (ExtraItemsErrorE n) st) s
              = report mode (ExtraItemsError n) (path st) s"
    by (rule exec_emit_error) simp
  show ?thesis
    by (auto simp: gen_list_len_check_def len e1 e2 split: outcome.splits)
qed

text \<open>
  The length check is the last test of a list crown, at the root or nested. Once the read of the
  crown's value and the statements of its children have run through, it compares the length of the
  crown's own value with the number of declared children: a shorter list is reported with
  \<^verbatim>\<open>NoRequiredItemsError\<close>, a longer one with \<^verbatim>\<open>ExtraItemsError\<close> under \<^verbatim>\<open>ExtraForbid\<close> only, and
  nothing else is; what may follow is the hand-over of the overflow holder to the parent.
\<close>

lemma list_crown_length_check_reached:
  assumes gen: "gen_list_crown g cs pol st = Done code st'"
      and head: "gen_list_crown_head g cs st = Done code1 st1"
      and items: "gen_list_items g cs 0 st1 = Done code2 st2"
      and valid: "exec_block L (code1 @ code2) s = Normal s1"
      and data: "vals s1 (fst (v_data st')) = Some (PList xs)"
  shows "\<exists>code4. (code4 = [] \<or> (\<exists>pe. code4 = [AssignItem pe (last (path st)) (Var (fst (v_extra st')))])) \<and>
           exec_block L code s =
             (case (if length xs < length cs
                    then report (debug_trail g) (NoRequiredItemsError (length cs)) (path st) s1
                    else if pol = ExtraForbid \<and> length cs < length xs
                    then report (debug_trail g) (ExtraItemsError (length cs)) (path st) s1
                    else Normal s1) of
                Normal s2 \<Rightarrow> exec_block L code4 s2
              | Raised e s2 \<Rightarrow> Raised e s2
              | Stuck \<Rightarrow> Stuck)"
proof -
  obtain code3 where tl: "gen_list_crown_tail g cs pol st2 = Done code3 st'"
    and code: "code = (code1 @ code2) @ code3"
    using gen unfolding gen_list_crown.simps head gres.case items
    by (auto split: gres.splits)
  have p2: "path st2 = path st"
    using gen_list_crown_head_position_done[OF head] gen_list_items_path[OF items]
    by (simp add: same_position_def)
  let ?d = "fst (v_data st')"
  let ?ty = "(if cs = [] then [IfS (NotIsSequence ?d)
                              [Raise (with_trail (debug_trail g) (TypeLoadErrorE PyList) (path st))] []]
             else [])"
  let ?chk = "gen_list_len_check (debug_trail g) pol (length cs) ?d st"
  obtain code4 where c3: "code3 = ?ty @ ?chk @ code4"
    and c4: "code4 = [] \<or> (\<exists>pe. code4 = [AssignItem pe (last (path st)) (Var (fst (v_extra st')))])"
    using list_tail_shape[OF tl] unfolding p2 gen_list_len_check_path[OF p2] by blast
  have ty: "exec_block L ?ty s1 = Normal s1"
    using data by (simp add: read_var_def)
  have all: "exec_block L code s =
               (case exec_block L ?chk s1 of
                  Normal s2 \<Rightarrow> exec_block L code4 s2
                | Raised e s2 \<Rightarrow> Raised e s2
                | Stuck \<Rightarrow> Stuck)"
    unfolding code c3
    by (simp only: exec_block_append[of L "code1 @ code2"] valid outcome.case
        exec_block_append[of L ?ty] ty exec_block_append[of L ?chk])
  show ?thesis
    apply (rule exI[of _ code4])
    apply (rule conjI[OF c4])
    unfolding all exec_list_len_check[OF data]
    apply (rule refl)
    done
qed

text \<open>
  C5. A list shorter than the number of declared children is to fail with
  \<^verbatim>\<open>NoRequiredItemsError(n)\<close>, a longer one under \<^verbatim>\<open>ExtraForbid\<close> with \<^verbatim>\<open>ExtraItemsError(n)\<close>. With debug
  trail \<^verbatim>\<open>ALL\<close> the read of a missing item is passed over, for the length check at the end of the
  crown to report it; the statements of a nested crown at the missing position follow all the
  same and read that crown's unbound variable. For the list crown \<^verbatim>\<open>[{"z": f2}]\<close> on the input
  \<^verbatim>\<open>[]\<close> the procedure ends with Python's error for an unbound name, before it reaches the length
  check; with the other debug trails, and with a field in the place of the nested crown, the same
  input fails with \<^verbatim>\<open>NoRequiredItemsError(1)\<close>. Lists of one and of two items are treated as
  stated.
\<close>

theorem list_crown_short_input_unbound_name:
  "is_Raised (the (run_extraction
     (example_gen_list TrailAll (InpDictCrown [(''z'', InpFieldCrown ''f2'')] ExtraForbid)) (PList []))) \<and>
   raised (the (run_extraction
     (example_gen_list TrailAll (InpDictCrown [(''z'', InpFieldCrown ''f2'')] ExtraForbid)) (PList [])))
     = Exc PyNameError [] \<and>
   errors (final (the (run_extraction
     (example_gen_list TrailAll (InpDictCrown [(''z'', InpFieldCrown ''f2'')] ExtraForbid)) (PList []))))
     = Some [Exc PyNameError [KInt 0, KStr ''z'']] \<and>
   raised (the (run_extraction
     (example_gen_list TrailDisable (InpDictCrown [(''z'', InpFieldCrown ''f2'')] ExtraForbid)) (PList [])))
     = Exc (NoRequiredItemsError 1) [] \<and>
   raised (the (run_extraction
     (example_gen_list TrailFirst (InpDictCrown [(''z'', InpFieldCrown ''f2'')] ExtraForbid)) (PList [])))
     = Exc (NoRequiredItemsError 1) [] \<and>
   raised (the (run_extraction (example_gen_list TrailAll (InpFieldCrown ''f2'')) (PList [])))
     = Exc (LoadExceptionGroup [Exc (NoRequiredItemsError 1) []]) [] \<and>
   raised (the (run_extraction
     (example_gen_list TrailAll (InpDictCrown [(''z'', InpFieldCrown ''f2'')] ExtraForbid))
     (PList [PDict [(KStr ''z'', PInt 2)], PInt 5])))
     = Exc (LoadExceptionGroup [Exc (ExtraItemsError 1) []]) [] \<and>
   is_Normal (the (run_extraction
     (example_gen_list TrailAll (InpDictCrown [(''z'', InpFieldCrown ''f2'')] ExtraForbid))
     (PList [PDict [(KStr ''z'', PInt 2)]])))"
  by code_simp

end
